theory Spec2Isabelle
  imports Main "HOL-Library.Word"
begin

unbundle bit_operations_syntax

section \<open>Constants of the p0f client\<close>

type_synonym byte = "8 word"
type_synonym uint16 = "16 word"
type_synonym uint32 = "32 word"

definition requestChanSize :: nat where "requestChanSize = 1024"
definition requestSize :: nat where "requestSize = 21"
definition responseSize :: nat where "responseSize = 44 + (32 * 6)"
definition ipv4Dword :: byte where "ipv4Dword = 4"
definition ipv6Dword :: byte where "ipv6Dword = 6"
definition resultBadQuery :: uint32 where "resultBadQuery = 0x00"
definition resultOk :: uint32 where "resultOk = 0x10"
definition resultNoMatch :: uint32 where "resultNoMatch = 0x20"
definition p0fStrMax :: nat where "p0fStrMax = 32"
definition magicBytesSend :: uint32 where "magicBytesSend = 0x50304601"
definition magicBytesRcv :: uint32 where "magicBytesRcv = 0x50304602"

section \<open>Errors\<close>

text \<open>A Go \<open>error\<close> made by \<open>errors.New\<close> or \<open>fmt.Errorf\<close>, or returned by the
  connection: the value carries its message.\<close>

datatype error = Error string

text \<open>The verb \<open>%d\<close> of \<open>fmt.Errorf\<close> on an unsigned value.\<close>

fun decimal :: "nat \<Rightarrow> string" where
  "decimal n =
     (if n < 10 then [char_of (48 + n)] else decimal (n div 10) @ [char_of (48 + n mod 10)])"

declare decimal.simps [simp del]

section \<open>Go strings\<close>

text \<open>A Go string is a sequence of bytes; the conversion \<open>string(bs)\<close> of a byte slice
  keeps every byte. Isabelle characters are bytes as well.\<close>

definition go_string :: "byte list \<Rightarrow> string" where
  "go_string bs = map (\<lambda>b. char_of (unat b)) bs"

section \<open>Fixed string buffers: \<open>trstr\<close>\<close>

text \<open>The loop \<open>for i := 1; i < len(cStr); i++\<close> of \<open>trstr\<close>, started at index \<open>i\<close>: it
  returns at the first zero byte it meets and otherwise falls through to the conversion of
  the whole buffer.\<close>

function trstr_loop :: "byte list \<Rightarrow> nat \<Rightarrow> string" where
  "trstr_loop cStr i =
     (if i < length cStr
      then (if cStr ! i = 0 then go_string (take i cStr) else trstr_loop cStr (Suc i))
      else go_string cStr)"
  by pat_completeness auto
termination
  by (relation "measure (\<lambda>(cStr, i). length cStr - i)") auto

declare trstr_loop.simps [simp del]

text \<open>\<open>trstr\<close> takes a \<open>[32]byte\<close>; the result \<open>*string\<close> is \<open>None\<close> for the nil pointer.
  The argument is a list here, and the theorems below fix its length to \<open>p0fStrMax\<close>.\<close>

definition trstr :: "byte list \<Rightarrow> string option" where
  "trstr cStr = (if cStr ! 0 = 0 then None else Some (trstr_loop cStr 1))"

section \<open>Byte order\<close>

text \<open>\<open>binary.NativeEndian\<close> is one of the two byte orders, fixed by the host.\<close>

datatype ByteOrder = LittleEndian | BigEndian

text \<open>The Go slice expression \<open>b[lo:hi]\<close>.\<close>

definition go_slice :: "nat \<Rightarrow> nat \<Rightarrow> 'a list \<Rightarrow> 'a list" where
  "go_slice lo hi b = take (hi - lo) (drop lo b)"

definition Uint16 :: "ByteOrder \<Rightarrow> byte list \<Rightarrow> uint16" where
  "Uint16 order b =
     (case order of
        LittleEndian \<Rightarrow> ucast (b ! 0) OR push_bit 8 (ucast (b ! 1))
      | BigEndian \<Rightarrow> ucast (b ! 1) OR push_bit 8 (ucast (b ! 0)))"

definition Uint32 :: "ByteOrder \<Rightarrow> byte list \<Rightarrow> uint32" where
  "Uint32 order b =
     (case order of
        LittleEndian \<Rightarrow>
          ucast (b ! 0) OR push_bit 8 (ucast (b ! 1)) OR push_bit 16 (ucast (b ! 2))
            OR push_bit 24 (ucast (b ! 3))
      | BigEndian \<Rightarrow>
          ucast (b ! 3) OR push_bit 8 (ucast (b ! 2)) OR push_bit 16 (ucast (b ! 1))
            OR push_bit 24 (ucast (b ! 0)))"

text \<open>\<open>PutUint32(b, v)\<close> writes four bytes into the slice \<open>b\<close>; the result is the slice
  after the call.\<close>

definition PutUint32 :: "ByteOrder \<Rightarrow> byte list \<Rightarrow> uint32 \<Rightarrow> byte list" where
  "PutUint32 order b v =
     (case order of
        LittleEndian \<Rightarrow>
          b[0 := ucast v, 1 := ucast (drop_bit 8 v), 2 := ucast (drop_bit 16 v),
            3 := ucast (drop_bit 24 v)]
      | BigEndian \<Rightarrow>
          b[0 := ucast (drop_bit 24 v), 1 := ucast (drop_bit 16 v), 2 := ucast (drop_bit 8 v),
            3 := ucast v])"

section \<open>Decoding the response\<close>

record P0fResponse =
  Ip :: string
  FirstSeen :: uint32
  LastSeen :: uint32
  TotalCount :: uint32
  UptimeMin :: uint32
  UpModDays :: uint32
  LastNat :: uint32
  LastChg :: uint32
  Distance :: uint16
  BadSw :: byte
  OsMatchQ :: byte
  OsName :: "string option"
  OsFlavor :: "string option"
  HttpName :: "string option"
  HttpFlavor :: "string option"
  LinkMtu :: uint16
  LinkType :: "string option"
  Language :: "string option"

text \<open>The zero value of \<open>P0fResponse\<close>: what the named result \<open>resp\<close> of \<open>readResponse\<close>
  holds as long as nothing is assigned to it.\<close>

definition P0fResponse_zero :: P0fResponse where
  "P0fResponse_zero =
     \<lparr>Ip = [], FirstSeen = 0, LastSeen = 0, TotalCount = 0, UptimeMin = 0, UpModDays = 0,
      LastNat = 0, LastChg = 0, Distance = 0, BadSw = 0, OsMatchQ = 0, OsName = None,
      OsFlavor = None, HttpName = None, HttpFlavor = None, LinkMtu = 0, LinkType = None,
      Language = None\<rparr>"

text \<open>The temporary struct \<open>r\<close> of \<open>readResponse\<close>.\<close>

record wire_response =
  r_Magic :: uint32
  r_Status :: uint32
  r_FirstSeen :: uint32
  r_LastSeen :: uint32
  r_TotalCount :: uint32
  r_UptimeMin :: uint32
  r_UpModDays :: uint32
  r_LastNat :: uint32
  r_LastChg :: uint32
  r_Distance :: uint16
  r_BadSw :: byte
  r_OsMatchQ :: byte
  r_OsName :: "byte list"
  r_OsFlavor :: "byte list"
  r_HttpName :: "byte list"
  r_HttpFlavor :: "byte list"
  r_LinkMtu :: uint16
  r_LinkType :: "byte list"
  r_Language :: "byte list"

text \<open>\<open>binary.Read\<close> walks the fields of the struct in order over a buffer, each read
  taking its bytes from the front of what is left: a decoder returns its value and the
  rest of the buffer.\<close>

type_synonym 'a decoder = "byte list \<Rightarrow> 'a \<times> byte list"

definition d_uint8 :: "byte decoder" where
  "d_uint8 buf = (buf ! 0, drop 1 buf)"

definition d_uint16 :: "ByteOrder \<Rightarrow> uint16 decoder" where
  "d_uint16 order buf = (Uint16 order (go_slice 0 2 buf), drop 2 buf)"

definition d_uint32 :: "ByteOrder \<Rightarrow> uint32 decoder" where
  "d_uint32 order buf = (Uint32 order (go_slice 0 4 buf), drop 4 buf)"

definition d_array :: "nat \<Rightarrow> (byte list) decoder" where
  "d_array n buf = (go_slice 0 n buf, drop n buf)"

text \<open>The encoded size of \<open>r\<close>: the sum of the sizes of its fields, without padding.\<close>

definition dataSize :: nat where
  "dataSize = 4 + 4 + 7 * 4 + 2 + 1 + 1 + 4 * p0fStrMax + 2 + 2 * p0fStrMax"

text \<open>\<open>binary.Read(bytes.NewReader(data), order, &r)\<close>: it reads \<open>dataSize\<close> bytes in full
  (\<open>EOF\<close> when there is none, \<open>unexpected EOF\<close> when there are too few) and decodes them.\<close>

definition binary_Read :: "ByteOrder \<Rightarrow> byte list \<Rightarrow> error + wire_response" where
  "binary_Read order data =
     (if length data = 0 then Inl (Error ''EOF'')
      else if length data < dataSize then Inl (Error ''unexpected EOF'')
      else
        let b = take dataSize data;
            (magic, b) = d_uint32 order b;
            (status, b) = d_uint32 order b;
            (firstSeen, b) = d_uint32 order b;
            (lastSeen, b) = d_uint32 order b;
            (totalCount, b) = d_uint32 order b;
            (uptimeMin, b) = d_uint32 order b;
            (upModDays, b) = d_uint32 order b;
            (lastNat, b) = d_uint32 order b;
            (lastChg, b) = d_uint32 order b;
            (distance, b) = d_uint16 order b;
            (badSw, b) = d_uint8 b;
            (osMatchQ, b) = d_uint8 b;
            (osName, b) = d_array p0fStrMax b;
            (osFlavor, b) = d_array p0fStrMax b;
            (httpName, b) = d_array p0fStrMax b;
            (httpFlavor, b) = d_array p0fStrMax b;
            (linkMtu, b) = d_uint16 order b;
            (linkType, b) = d_array p0fStrMax b;
            (language, b) = d_array p0fStrMax b
        in Inr \<lparr>r_Magic = magic, r_Status = status, r_FirstSeen = firstSeen,
                 r_LastSeen = lastSeen, r_TotalCount = totalCount, r_UptimeMin = uptimeMin,
                 r_UpModDays = upModDays, r_LastNat = lastNat, r_LastChg = lastChg,
                 r_Distance = distance, r_BadSw = badSw, r_OsMatchQ = osMatchQ,
                 r_OsName = osName, r_OsFlavor = osFlavor, r_HttpName = httpName,
                 r_HttpFlavor = httpFlavor, r_LinkMtu = linkMtu, r_LinkType = linkType,
                 r_Language = language\<rparr>)"

text \<open>\<open>p.conn.Read(responseBytes)\<close> on the fresh buffer \<open>make([]byte, responseSize)\<close>: the
  call fails, or it delivers some bytes into the front of the buffer and the rest of the
  buffer keeps its zeros.\<close>

definition conn_Read :: "error + byte list \<Rightarrow> error + byte list" where
  "conn_Read rd =
     (case rd of
        Inl err \<Rightarrow> Inl err
      | Inr delivered \<Rightarrow>
          Inr (take responseSize delivered @ replicate (responseSize - length delivered) 0))"

text \<open>\<open>readResponse\<close> returns the pair \<open>(resp, err)\<close>; \<open>None\<close> is the nil error. The
  argument \<open>rd\<close> is what the connection does at the call of \<open>Read\<close>.\<close>

definition readResponse :: "ByteOrder \<Rightarrow> error + byte list \<Rightarrow> string \<Rightarrow> P0fResponse \<times> error option" where
  "readResponse order rd ip =
     (case conn_Read rd of
        Inl err \<Rightarrow> (P0fResponse_zero, Some err)
      | Inr responseBytes \<Rightarrow>
          (case binary_Read order responseBytes of
             Inl err \<Rightarrow> (P0fResponse_zero, Some err)
           | Inr r \<Rightarrow>
               if r_Magic r \<noteq> magicBytesRcv
               then (P0fResponse_zero, Some (Error ''invalid magic bytes in response''))
               else if r_Status r = resultOk
               then (\<lparr>Ip = ip, FirstSeen = r_FirstSeen r, LastSeen = r_LastSeen r,
                      TotalCount = r_TotalCount r, UptimeMin = r_UptimeMin r,
                      UpModDays = r_UpModDays r, LastNat = r_LastNat r, LastChg = r_LastChg r,
                      Distance = r_Distance r, BadSw = r_BadSw r, OsMatchQ = r_OsMatchQ r,
                      OsName = trstr (r_OsName r), OsFlavor = trstr (r_OsFlavor r),
                      HttpName = trstr (r_HttpName r), HttpFlavor = trstr (r_HttpFlavor r),
                      LinkMtu = r_LinkMtu r, LinkType = trstr (r_LinkType r),
                      Language = trstr (r_Language r)\<rparr>, None)
               else if r_Status r = resultBadQuery
               then (P0fResponse_zero, Some (Error ''bad query''))
               else if r_Status r = resultNoMatch
               then (P0fResponse_zero, Some (Error ''no match''))
               else (P0fResponse_zero,
                     Some (Error (''unknown response code '' @ decimal (unat (r_Status r)))))))"

section \<open>Encoding the request\<close>

text \<open>A \<open>net.IP\<close> is a byte slice. \<open>To4\<close> and \<open>To16\<close> are the methods of Go's package
  \<open>net\<close>: \<open>To4\<close> gives the four bytes of a 4-byte address or of a 16-byte address with the
  prefix of an IPv4-mapped one, \<open>To16\<close> gives the 16-byte form; \<open>None\<close> is the nil slice.\<close>

type_synonym IP = "byte list"

definition v4InV6Prefix :: "byte list" where
  "v4InV6Prefix = [0, 0, 0, 0, 0, 0, 0, 0, 0, 0, 0xff, 0xff]"

definition isZeros :: "byte list \<Rightarrow> bool" where
  "isZeros p = list_all (\<lambda>b. b = 0) p"

definition To4 :: "IP \<Rightarrow> IP option" where
  "To4 ip =
     (if length ip = 4 then Some ip
      else if length ip = 16 \<and> isZeros (go_slice 0 10 ip) \<and> ip ! 10 = 0xff \<and> ip ! 11 = 0xff
      then Some (go_slice 12 16 ip)
      else None)"

definition To16 :: "IP \<Rightarrow> IP option" where
  "To16 ip =
     (if length ip = 4 then Some (v4InV6Prefix @ ip)
      else if length ip = 16 then Some ip
      else None)"

text \<open>The loop \<open>for i, b := range src { buffer[5+i] = b }\<close>, from index \<open>i\<close> on. An index
  outside the array is a run-time panic, the result \<open>None\<close>.\<close>

fun range_copy :: "byte list \<Rightarrow> nat \<Rightarrow> byte list \<Rightarrow> byte list option" where
  "range_copy buffer i [] = Some buffer"
| "range_copy buffer i (b # src) =
     (if 5 + i < length buffer then range_copy (buffer[5 + i := b]) (Suc i) src else None)"

text \<open>The buffer that \<open>writeRequest\<close> hands to \<open>p.conn.Write\<close>. Ranging over a nil slice
  runs no iteration.\<close>

definition request_buffer :: "ByteOrder \<Rightarrow> IP \<Rightarrow> byte list option" where
  "request_buffer order ip =
     (let buffer = replicate requestSize 0;
          buffer = PutUint32 order (go_slice 0 4 buffer) magicBytesSend @ drop 4 buffer
      in case To4 ip of
           Some ip4 \<Rightarrow> range_copy (buffer[4 := ipv4Dword]) 0 ip4
         | None \<Rightarrow>
             range_copy (buffer[4 := ipv6Dword]) 0 (case To16 ip of None \<Rightarrow> [] | Some ip16 \<Rightarrow> ip16))"

section \<open>The response frame as the specification lays it out\<close>

text \<open>The specification gives the response as one frame with fields at fixed places: magic
  and status in bytes 0-7, seven 32-bit values in bytes 8-35, the 16-bit distance, the two
  flag bytes, four 32-byte strings, the 16-bit link MTU and two more 32-byte strings.
  \<open>frame_result\<close> reads a result off a frame by these fixed offsets; it is compared below
  with what \<open>readResponse\<close> computes.\<close>

definition frame_magic :: "ByteOrder \<Rightarrow> byte list \<Rightarrow> uint32" where
  "frame_magic order frame = Uint32 order (go_slice 0 4 frame)"

definition frame_status :: "ByteOrder \<Rightarrow> byte list \<Rightarrow> uint32" where
  "frame_status order frame = Uint32 order (go_slice 4 8 frame)"

definition frame_result :: "ByteOrder \<Rightarrow> byte list \<Rightarrow> string \<Rightarrow> P0fResponse" where
  "frame_result order frame ip =
     \<lparr>Ip = ip,
      FirstSeen = Uint32 order (go_slice 8 12 frame),
      LastSeen = Uint32 order (go_slice 12 16 frame),
      TotalCount = Uint32 order (go_slice 16 20 frame),
      UptimeMin = Uint32 order (go_slice 20 24 frame),
      UpModDays = Uint32 order (go_slice 24 28 frame),
      LastNat = Uint32 order (go_slice 28 32 frame),
      LastChg = Uint32 order (go_slice 32 36 frame),
      Distance = Uint16 order (go_slice 36 38 frame),
      BadSw = frame ! 38,
      OsMatchQ = frame ! 39,
      OsName = trstr (go_slice 40 72 frame),
      OsFlavor = trstr (go_slice 72 104 frame),
      HttpName = trstr (go_slice 104 136 frame),
      HttpFlavor = trstr (go_slice 136 168 frame),
      LinkMtu = Uint16 order (go_slice 168 170 frame),
      LinkType = trstr (go_slice 170 202 frame),
      Language = trstr (go_slice 202 234 frame)\<rparr>"

text \<open>The four magic bytes of a request as they lie in memory.\<close>

definition magic_prefix :: "ByteOrder \<Rightarrow> byte list" where
  "magic_prefix order =
     (case order of
        LittleEndian \<Rightarrow> [0x01, 0x46, 0x30, 0x50]
      | BigEndian \<Rightarrow> [0x50, 0x30, 0x46, 0x01])"

text \<open>A crafted response frame: the daemon's side of the wire format, as the
  specification describes it. The values of a \<open>wire_response\<close> are laid down field after
  field, integers in the given byte order, each string buffer as its 32 bytes, followed by
  the bytes \<open>pad\<close> that fill the frame up to \<open>responseSize\<close>.\<close>

definition uint16_bytes :: "ByteOrder \<Rightarrow> uint16 \<Rightarrow> byte list" where
  "uint16_bytes order v =
     (case order of
        LittleEndian \<Rightarrow> [ucast v, ucast (drop_bit 8 v)]
      | BigEndian \<Rightarrow> [ucast (drop_bit 8 v), ucast v])"

definition uint32_bytes :: "ByteOrder \<Rightarrow> uint32 \<Rightarrow> byte list" where
  "uint32_bytes order v = PutUint32 order [0, 0, 0, 0] v"

definition crafted_frame :: "ByteOrder \<Rightarrow> wire_response \<Rightarrow> byte list \<Rightarrow> byte list" where
  "crafted_frame order r pad =
     uint32_bytes order (r_Magic r) @ uint32_bytes order (r_Status r) @
     uint32_bytes order (r_FirstSeen r) @ uint32_bytes order (r_LastSeen r) @
     uint32_bytes order (r_TotalCount r) @ uint32_bytes order (r_UptimeMin r) @
     uint32_bytes order (r_UpModDays r) @ uint32_bytes order (r_LastNat r) @
     uint32_bytes order (r_LastChg r) @ uint16_bytes order (r_Distance r) @
     r_BadSw r # r_OsMatchQ r #
     r_OsName r @ r_OsFlavor r @ r_HttpName r @ r_HttpFlavor r @
     uint16_bytes order (r_LinkMtu r) @ r_LinkType r @ r_Language r @ pad"

text \<open>The string buffers of a crafted frame are 32 bytes each, and two bytes of padding
  make the frame 236 bytes long.\<close>

definition well_sized :: "wire_response \<Rightarrow> byte list \<Rightarrow> bool" where
  "well_sized r pad \<longleftrightarrow>
     length (r_OsName r) = p0fStrMax \<and> length (r_OsFlavor r) = p0fStrMax \<and>
     length (r_HttpName r) = p0fStrMax \<and> length (r_HttpFlavor r) = p0fStrMax \<and>
     length (r_LinkType r) = p0fStrMax \<and> length (r_Language r) = p0fStrMax \<and>
     length pad = 2"

section \<open>The engine: queue, worker, \<open>Query\<close> and \<open>Shutdown\<close>\<close>

text \<open>A \<open>p0fRequest\<close>. The wait group \<open>wg\<close> is created with count one and only ever
  decremented once, by the worker: \<open>req_done\<close> says that \<open>wg.Done()\<close> has run.\<close>

record p0fRequest =
  req_ip :: IP
  req_done :: bool
  req_response :: P0fResponse
  req_err :: "error option"

definition new_request :: "IP \<Rightarrow> p0fRequest" where
  "new_request ip =
     \<lparr>req_ip = ip, req_done = False, req_response = P0fResponse_zero, req_err = None\<rparr>"

text \<open>What lies outside the program: the byte order of the host, \<open>net.IP.String\<close>, and
  what the connection does at the \<open>k\<close>-th exchange when the worker writes a frame and
  then reads.\<close>

record world =
  byte_order :: ByteOrder
  ip_String :: "IP \<Rightarrow> string"
  on_Write :: "nat \<Rightarrow> byte list \<Rightarrow> error option"
  on_Read :: "nat \<Rightarrow> error + byte list"

text \<open>\<open>writeRequest\<close>: the error of \<open>p.conn.Write\<close>, or \<open>None\<close> when building the buffer
  panics.\<close>

definition writeRequest :: "ByteOrder \<Rightarrow> (byte list \<Rightarrow> error option) \<Rightarrow> IP \<Rightarrow> error option option" where
  "writeRequest order write ip = map_option write (request_buffer order ip)"

text \<open>The function literal in the loop of \<open>start\<close>, with its deferred \<open>request.wg.Done()\<close>.
  The second component says whether the body panicked.\<close>

definition serve :: "world \<Rightarrow> nat \<Rightarrow> p0fRequest \<Rightarrow> p0fRequest \<times> bool" where
  "serve w k request =
     (case writeRequest (byte_order w) (on_Write w k) (req_ip request) of
        None \<Rightarrow> (request\<lparr>req_done := True\<rparr>, True)
      | Some (Some err) \<Rightarrow> (request\<lparr>req_err := Some err, req_done := True\<rparr>, False)
      | Some None \<Rightarrow>
          (let (resp, err) = readResponse (byte_order w) (on_Read w k) (ip_String w (req_ip request))
           in (request\<lparr>req_response := resp, req_err := err, req_done := True\<rparr>, False)))"

text \<open>Where the goroutine running \<open>start\<close> stands: at the loop condition, at the receive,
  inside the body with the request it received, or after its return (the deferred
  \<open>p.conn.Close()\<close> has run), normally or by a panic.\<close>

datatype worker_pc = WorkerLoop | WorkerReceive | WorkerServe nat | WorkerExited | WorkerPanicked

text \<open>Where a goroutine calling \<open>Query\<close> or \<open>Shutdown\<close> stands. \<open>Query\<close>: before the load of
  the flag, at the \<open>select\<close>, blocked in \<open>wg.Wait()\<close> on its request, returned, or panicked.
  \<open>Shutdown\<close>: before the compare-and-swap, at \<open>close\<close> after winning it, or returned; the
  flag of \<open>ShutdownReturned\<close> says that a panic was recovered and logged.\<close>

datatype caller =
    QueryCalled IP
  | QuerySelect IP
  | QueryWaiting nat
  | QueryReturned P0fResponse "error option"
  | QueryPanicked
  | ShutdownCalled
  | ShutdownClose
  | ShutdownReturned bool

text \<open>The \<open>P0f\<close> value with the connection, the buffered channel (its content and whether
  it is closed) and the flag; the requests allocated so far, a request pointer being an
  index into \<open>heap\<close>; the goroutines.\<close>

record P0f =
  conn_closed :: bool
  requestQueue :: "nat list"
  queue_closed :: bool
  shutdown :: bool
  heap :: "p0fRequest list"
  exchanges :: nat
  worker :: worker_pc
  callers :: "caller list"

text \<open>\<open>New\<close> after a successful dial: an open connection, an empty channel of capacity
  \<open>requestChanSize\<close>, the flag unset, and the worker started.\<close>

definition New :: P0f where
  "New = \<lparr>conn_closed = False, requestQueue = [], queue_closed = False, shutdown = False,
          heap = [], exchanges = 0, worker = WorkerLoop, callers = []\<rparr>"

subsection \<open>\<open>Query\<close>\<close>

definition errShutdown :: error where
  "errShutdown = Error ''P0f::Shutdown previously called''"

definition errCapacity :: error where
  "errCapacity = Error ''requestQueue at capacity''"

text \<open>The \<open>select\<close> of \<open>Query\<close> with its \<open>default\<close> case. A send on a closed channel panics;
  a send on a channel with room puts the request into the buffer; otherwise the default
  case runs. The request and its wait group, made just before the \<open>select\<close>, enter the
  heap only when they are sent: otherwise nothing refers to them.\<close>

definition Query_select :: "IP \<Rightarrow> P0f \<Rightarrow> caller \<times> P0f" where
  "Query_select ip p =
     (if queue_closed p then (QueryPanicked, p)
      else if length (requestQueue p) < requestChanSize
      then (QueryWaiting (length (heap p)),
            p\<lparr>heap := heap p @ [new_request ip],
              requestQueue := requestQueue p @ [length (heap p)]\<rparr>)
      else (QueryReturned P0fResponse_zero (Some errCapacity), p))"

text \<open>\<open>Query\<close> run without another goroutine in between, up to the point where it has
  returned, panicked or blocks in \<open>wg.Wait()\<close>.\<close>

definition Query :: "IP \<Rightarrow> P0f \<Rightarrow> caller \<times> P0f" where
  "Query ip p =
     (if shutdown p then (QueryReturned P0fResponse_zero (Some errShutdown), p)
      else Query_select ip p)"

subsection \<open>\<open>Shutdown\<close>\<close>

text \<open>\<open>p.shutdown.CompareAndSwap(false, true)\<close>.\<close>

definition CompareAndSwap :: "P0f \<Rightarrow> bool \<times> P0f" where
  "CompareAndSwap p = (if shutdown p then (False, p) else (True, p\<lparr>shutdown := True\<rparr>))"

text \<open>\<open>close(p.requestQueue)\<close> under the deferred \<open>recover\<close>: closing a closed channel
  panics, and the panic is recovered and logged. The first component says so.\<close>

definition close_requestQueue :: "P0f \<Rightarrow> bool \<times> P0f" where
  "close_requestQueue p = (if queue_closed p then (True, p) else (False, p\<lparr>queue_closed := True\<rparr>))"

text \<open>\<open>Shutdown\<close> run without another goroutine in between.\<close>

definition Shutdown :: "P0f \<Rightarrow> bool \<times> P0f" where
  "Shutdown p =
     (let (won, p) = CompareAndSwap p
      in if won then close_requestQueue p else (False, p))"

subsection \<open>Interleaving\<close>

text \<open>One step of the worker. The receive blocks on an open empty channel (no step); on a
  closed channel it still delivers what the buffer holds and only then reports \<open>!ok\<close>.\<close>

definition worker_step :: "world \<Rightarrow> P0f \<Rightarrow> P0f option" where
  "worker_step w p =
     (case worker p of
        WorkerLoop \<Rightarrow>
          if \<not> shutdown p then Some (p\<lparr>worker := WorkerReceive\<rparr>)
          else Some (p\<lparr>conn_closed := True, worker := WorkerExited\<rparr>)
      | WorkerReceive \<Rightarrow>
          (case requestQueue p of
             request # rest \<Rightarrow> Some (p\<lparr>requestQueue := rest, worker := WorkerServe request\<rparr>)
           | [] \<Rightarrow>
               if queue_closed p then Some (p\<lparr>conn_closed := True, worker := WorkerExited\<rparr>)
               else None)
      | WorkerServe request \<Rightarrow>
          (let (r, panicked) = serve w (exchanges p) (heap p ! request);
               p = p\<lparr>heap := (heap p)[request := r], exchanges := Suc (exchanges p)\<rparr>
           in if panicked then Some (p\<lparr>conn_closed := True, worker := WorkerPanicked\<rparr>)
              else Some (p\<lparr>worker := WorkerLoop\<rparr>))
      | WorkerExited \<Rightarrow> None
      | WorkerPanicked \<Rightarrow> None)"

text \<open>One step of a calling goroutine: its next state and the engine after it. A goroutine
  in \<open>wg.Wait()\<close> moves once its request is done; one that has returned or panicked does
  not move.\<close>

definition caller_step :: "caller \<Rightarrow> P0f \<Rightarrow> (caller \<times> P0f) option" where
  "caller_step c p =
     (case c of
        QueryCalled ip \<Rightarrow>
          if shutdown p then Some (QueryReturned P0fResponse_zero (Some errShutdown), p)
          else Some (QuerySelect ip, p)
      | QuerySelect ip \<Rightarrow> Some (Query_select ip p)
      | QueryWaiting request \<Rightarrow>
          if req_done (heap p ! request)
          then Some (QueryReturned (req_response (heap p ! request)) (req_err (heap p ! request)), p)
          else None
      | QueryReturned resp err \<Rightarrow> None
      | QueryPanicked \<Rightarrow> None
      | ShutdownCalled \<Rightarrow>
          (let (won, p) = CompareAndSwap p
           in if won then Some (ShutdownClose, p) else Some (ShutdownReturned False, p))
      | ShutdownClose \<Rightarrow>
          (let (recovered, p) = close_requestQueue p in Some (ShutdownReturned recovered, p))
      | ShutdownReturned recovered \<Rightarrow> None)"

text \<open>What can happen next: the worker or the \<open>i\<close>-th caller takes a step, or some
  goroutine calls \<open>Query\<close> or \<open>Shutdown\<close>. A panic of the worker ends the process. A panic
  inside \<open>Query\<close> unwinds the calling goroutine, where the caller may recover it (as
  \<open>net/http\<close> does for a handler); the other goroutines are left running.\<close>

datatype event = WorkerStep | CallerStep nat | CallQuery IP | CallShutdown

definition fire :: "world \<Rightarrow> event \<Rightarrow> P0f \<Rightarrow> P0f option" where
  "fire w ev p =
     (if worker p = WorkerPanicked then None
      else case ev of
        WorkerStep \<Rightarrow> worker_step w p
      | CallerStep i \<Rightarrow>
          if i < length (callers p)
          then (case caller_step (callers p ! i) p of
                  None \<Rightarrow> None
                | Some (c, p') \<Rightarrow> Some (p'\<lparr>callers := (callers p')[i := c]\<rparr>))
          else None
      | CallQuery ip \<Rightarrow> Some (p\<lparr>callers := callers p @ [QueryCalled ip]\<rparr>)
      | CallShutdown \<Rightarrow> Some (p\<lparr>callers := callers p @ [ShutdownCalled]\<rparr>))"

fun run :: "world \<Rightarrow> event list \<Rightarrow> P0f \<Rightarrow> P0f option" where
  "run w [] p = Some p"
| "run w (ev # evs) p = (case fire w ev p of None \<Rightarrow> None | Some p' \<Rightarrow> run w evs p')"

inductive reachable :: "world \<Rightarrow> P0f \<Rightarrow> bool" for w :: world where
  reachable_New: "reachable w New"
| reachable_fire: "reachable w p \<Longrightarrow> fire w ev p = Some p' \<Longrightarrow> reachable w p'"

text \<open>How many callers of the engine stand in a given state.\<close>

definition standing :: "caller \<Rightarrow> P0f \<Rightarrow> nat" where
  "standing c p = length (filter (\<lambda>x. x = c) (callers p))"

text \<open>What every reachable engine satisfies: the buffer is within its capacity; the flag is
  set exactly when one goroutine has won the compare-and-swap, and that one either still
  stands before its \<open>close\<close> or has closed the channel; no \<open>close\<close> has panicked; a worker
  that has returned has closed the connection.\<close>

definition engine_inv :: "P0f \<Rightarrow> bool" where
  "engine_inv p \<longleftrightarrow>
     length (requestQueue p) \<le> requestChanSize \<and>
     standing ShutdownClose p + (if queue_closed p then 1 else 0) = (if shutdown p then 1 else 0) \<and>
     standing (ShutdownReturned True) p = 0 \<and>
     (worker p = WorkerExited \<or> worker p = WorkerPanicked \<longrightarrow> conn_closed p)"

section \<open>Scenarios\<close>

text \<open>A daemon that answers every exchange with a match for a Linux host: status \<open>0x10\<close>,
  numeric fields 1 to 10, OS name \<open>Linux\<close>, the other strings empty, link MTU 1500.
  The frame is in little-endian order.\<close>

definition linux_frame :: "byte list" where
  "linux_frame =
     [0x02, 0x46, 0x30, 0x50, 0x10, 0, 0, 0]
     @ [1, 0, 0, 0, 2, 0, 0, 0, 3, 0, 0, 0, 4, 0, 0, 0, 5, 0, 0, 0, 6, 0, 0, 0, 7, 0, 0, 0]
     @ [8, 0, 9, 10]
     @ [0x4c, 0x69, 0x6e, 0x75, 0x78] @ replicate 27 0
     @ replicate 96 0
     @ [0xdc, 0x05]
     @ replicate 64 0
     @ [0, 0]"

text \<open>The values of \<open>linux_frame\<close>, field by field.\<close>

definition linux_wire :: wire_response where
  "linux_wire =
     \<lparr>r_Magic = 0x50304602, r_Status = 0x10, r_FirstSeen = 1, r_LastSeen = 2,
      r_TotalCount = 3, r_UptimeMin = 4, r_UpModDays = 5, r_LastNat = 6, r_LastChg = 7,
      r_Distance = 8, r_BadSw = 9, r_OsMatchQ = 10,
      r_OsName = [0x4c, 0x69, 0x6e, 0x75, 0x78] @ replicate 27 0,
      r_OsFlavor = replicate 32 0, r_HttpName = replicate 32 0, r_HttpFlavor = replicate 32 0,
      r_LinkMtu = 1500, r_LinkType = replicate 32 0, r_Language = replicate 32 0\<rparr>"

text \<open>A frame with the given magic and status bytes and nothing else.\<close>

definition bare_frame :: "byte list \<Rightarrow> byte \<Rightarrow> byte list" where
  "bare_frame magic status = magic @ [status, 0, 0, 0] @ replicate 228 0"

text \<open>A string buffer holding \<open>Linux\<close>, and one without any zero byte.\<close>

definition linux_name :: "byte list" where
  "linux_name = [0x4c, 0x69, 0x6e, 0x75, 0x78] @ replicate 27 0"

definition full_name :: "byte list" where
  "full_name = replicate 32 0x41"

definition linux_world :: world where
  "linux_world =
     \<lparr>byte_order = LittleEndian, ip_String = (\<lambda>ip. ''1.2.3.4''),
      on_Write = (\<lambda>k frame. None), on_Read = (\<lambda>k. Inr linux_frame)\<rparr>"

text \<open>The engine after \<open>n\<close> calls of \<open>Query ip\<close> that have all put their request into the
  channel and wait, while the worker has not run yet.\<close>

definition filled :: "IP \<Rightarrow> nat \<Rightarrow> P0f" where
  "filled ip n =
     \<lparr>conn_closed = False, requestQueue = [0..<n], queue_closed = False, shutdown = False,
      heap = replicate n (new_request ip), exchanges = 0, worker = WorkerLoop,
      callers = map QueryWaiting [0..<n]\<rparr>"

text \<open>The same engine once a call of \<open>Shutdown\<close> has won the compare-and-swap.\<close>

definition filled_shutdown :: "IP \<Rightarrow> nat \<Rightarrow> P0f" where
  "filled_shutdown ip n =
     (filled ip n)\<lparr>shutdown := True, callers := map QueryWaiting [0..<n] @ [ShutdownClose]\<rparr>"

text \<open>The filled engine with one more goroutine, which has called \<open>Query\<close>, has loaded the
  flag and stands at its \<open>select\<close>.\<close>

definition filled_select :: "IP \<Rightarrow> nat \<Rightarrow> IP \<Rightarrow> P0f" where
  "filled_select ip n ip' =
     (filled ip n)\<lparr>callers := map QueryWaiting [0..<n] @ [QuerySelect ip']\<rparr>"

text \<open>An engine on which \<open>Shutdown\<close> has won the compare-and-swap, with a goroutine that
  has just called \<open>Query\<close>.\<close>

definition late_caller :: P0f where
  "late_caller = (filled_shutdown [1, 2, 3, 4] 0)\<lparr>callers := [ShutdownClose, QueryCalled [5, 6, 7, 8]]\<rparr>"

text \<open>An IPv6 address, \<open>2001:db8::1\<close>.\<close>

definition ip6_example :: IP where
  "ip6_example = [0x20, 0x01, 0x0d, 0xb8, 0, 0, 0, 0, 0, 0, 0, 0, 0, 0, 0, 1]"

text \<open>One query is accepted into the channel, then \<open>Shutdown\<close> runs to its end, then the
  worker is scheduled.\<close>

definition shutdown_trace :: "event list" where
  "shutdown_trace =
     [CallQuery [1, 2, 3, 4], CallerStep 0, CallerStep 0,
      CallShutdown, CallerStep 1, CallerStep 1,
      WorkerStep]"

text \<open>The worker is busy with a first query while a second one is accepted and \<open>Shutdown\<close>
  runs; the worker then finishes the first query and comes back to its loop condition.\<close>

definition busy_shutdown_trace :: "event list" where
  "busy_shutdown_trace =
     [CallQuery [1, 2, 3, 4], CallerStep 0, CallerStep 0,
      WorkerStep, WorkerStep,
      CallQuery [5, 6, 7, 8], CallerStep 1, CallerStep 1,
      CallShutdown, CallerStep 2, CallerStep 2,
      WorkerStep, WorkerStep, CallerStep 0]"

section \<open>Lemmas on the string buffers\<close>

lemma trstr_loop_found:
  "i \<le> k \<Longrightarrow> k < length cStr \<Longrightarrow> cStr ! k = 0 \<Longrightarrow> \<forall>j. i \<le> j \<and> j < k \<longrightarrow> cStr ! j \<noteq> 0
     \<Longrightarrow> trstr_loop cStr i = go_string (take k cStr)"
proof (induction cStr i rule: trstr_loop.induct)
  case (1 cStr i)
  show ?case
  proof (cases "i = k")
    case True
    with 1 show ?thesis by (simp add: trstr_loop.simps [of cStr k])
  next
    case False
    with 1 have lt: "i < k" and nz: "cStr ! i \<noteq> 0" by auto
    with 1 have "trstr_loop cStr (Suc i) = go_string (take k cStr)" by auto
    with lt nz 1 show ?thesis by (simp add: trstr_loop.simps [of cStr i])
  qed
qed

lemma trstr_loop_full:
  "\<forall>j. i \<le> j \<and> j < length cStr \<longrightarrow> cStr ! j \<noteq> 0 \<Longrightarrow> trstr_loop cStr i = go_string cStr"
proof (induction cStr i rule: trstr_loop.induct)
  case (1 cStr i)
  show ?case
  proof (cases "i < length cStr")
    case True
    with 1 have "cStr ! i \<noteq> 0" by auto
    moreover from 1 True this have "trstr_loop cStr (Suc i) = go_string cStr" by auto
    ultimately show ?thesis using True by (simp add: trstr_loop.simps [of cStr i])
  next
    case False
    then show ?thesis by (simp add: trstr_loop.simps [of cStr i])
  qed
qed

text \<open>The result of the loop is always a prefix that starts at the front, is at least as
  long as the start index, and has no zero byte from the start index on.\<close>

lemma trstr_loop_prefix:
  "i \<le> length cStr \<Longrightarrow>
   \<exists>k. i \<le> k \<and> k \<le> length cStr \<and> trstr_loop cStr i = go_string (take k cStr) \<and>
       (\<forall>j. i \<le> j \<and> j < k \<longrightarrow> cStr ! j \<noteq> 0)"
proof (induction cStr i rule: trstr_loop.induct)
  case (1 cStr i)
  show ?case
  proof (cases "i < length cStr")
    case False
    then have "trstr_loop cStr i = go_string cStr"
      by (simp add: trstr_loop.simps [of cStr i])
    moreover from False have "take i cStr = cStr" by simp
    ultimately have "trstr_loop cStr i = go_string (take i cStr)" by simp
    then have "i \<le> i \<and> i \<le> length cStr \<and> trstr_loop cStr i = go_string (take i cStr) \<and>
       (\<forall>j. i \<le> j \<and> j < i \<longrightarrow> cStr ! j \<noteq> 0)"
      using "1.prems" by auto
    then show ?thesis by (rule exI)
  next
    case lt: True
    show ?thesis
    proof (cases "cStr ! i = 0")
      case True
      with lt have "trstr_loop cStr i = go_string (take i cStr)"
        by (simp add: trstr_loop.simps [of cStr i])
      then have "i \<le> i \<and> i \<le> length cStr \<and> trstr_loop cStr i = go_string (take i cStr) \<and>
         (\<forall>j. i \<le> j \<and> j < i \<longrightarrow> cStr ! j \<noteq> 0)"
        using lt by auto
      then show ?thesis by (rule exI)
    next
      case nz: False
      from lt have "Suc i \<le> length cStr" by simp
      from "1.IH" [OF lt nz this] obtain k where k: "Suc i \<le> k" "k \<le> length cStr"
        "trstr_loop cStr (Suc i) = go_string (take k cStr)"
        "\<forall>j. Suc i \<le> j \<and> j < k \<longrightarrow> cStr ! j \<noteq> 0"
        by blast
      from lt nz have "trstr_loop cStr i = trstr_loop cStr (Suc i)"
        by (simp add: trstr_loop.simps [of cStr i])
      with k(3) have eq: "trstr_loop cStr i = go_string (take k cStr)" by simp
      have "\<forall>j. i \<le> j \<and> j < k \<longrightarrow> cStr ! j \<noteq> 0"
      proof (intro allI impI)
        fix j assume j: "i \<le> j \<and> j < k"
        show "cStr ! j \<noteq> 0"
        proof (cases "j = i")
          case True
          with nz show ?thesis by simp
        next
          case False
          with j have "Suc i \<le> j \<and> j < k" by simp
          with k(4) show ?thesis by blast
        qed
      qed
      with eq k(1,2) have "i \<le> k \<and> k \<le> length cStr \<and>
         trstr_loop cStr i = go_string (take k cStr) \<and> (\<forall>j. i \<le> j \<and> j < k \<longrightarrow> cStr ! j \<noteq> 0)"
        by simp
      then show ?thesis by (rule exI)
    qed
  qed
qed

lemma of_char_go_byte: "of_char (char_of (unat (b::byte))) = unat b"
proof -
  have "unat b < 256" using unsigned_less [of b] by simp
  then show ?thesis by simp
qed

lemma length_go_string: "length (go_string bs) = length bs"
  by (simp add: go_string_def)

lemma go_string_no_zero:
  assumes "\<forall>b \<in> set bs. b \<noteq> 0"
  shows "\<forall>c \<in> set (go_string bs). of_char c \<noteq> (0::nat)"
proof
  fix c assume "c \<in> set (go_string bs)"
  then obtain b where b: "b \<in> set bs" "c = char_of (unat b)"
    by (auto simp: go_string_def)
  then have "of_char c = unat b" by (simp only: of_char_go_byte)
  moreover from b assms have "unat b \<noteq> 0" by (simp add: unat_eq_0)
  ultimately show "of_char c \<noteq> (0::nat)" by simp
qed

section \<open>Lemmas on the codec\<close>

lemma binary_Read_fields:
  assumes "dataSize \<le> length data"
  shows "binary_Read order data =
    Inr \<lparr>r_Magic = Uint32 order (go_slice 0 4 data), r_Status = Uint32 order (go_slice 4 8 data),
         r_FirstSeen = Uint32 order (go_slice 8 12 data),
         r_LastSeen = Uint32 order (go_slice 12 16 data),
         r_TotalCount = Uint32 order (go_slice 16 20 data),
         r_UptimeMin = Uint32 order (go_slice 20 24 data),
         r_UpModDays = Uint32 order (go_slice 24 28 data),
         r_LastNat = Uint32 order (go_slice 28 32 data),
         r_LastChg = Uint32 order (go_slice 32 36 data),
         r_Distance = Uint16 order (go_slice 36 38 data),
         r_BadSw = data ! 38, r_OsMatchQ = data ! 39,
         r_OsName = go_slice 40 72 data, r_OsFlavor = go_slice 72 104 data,
         r_HttpName = go_slice 104 136 data, r_HttpFlavor = go_slice 136 168 data,
         r_LinkMtu = Uint16 order (go_slice 168 170 data),
         r_LinkType = go_slice 170 202 data, r_Language = go_slice 202 234 data\<rparr>"
proof -
  from assms have len: "234 \<le> length data" "length data \<noteq> 0"
    by (auto simp: dataSize_def p0fStrMax_def)
  then show ?thesis
    by (simp add: binary_Read_def dataSize_def p0fStrMax_def d_uint32_def d_uint16_def
        d_uint8_def d_array_def go_slice_def Let_def drop_take)
qed

lemma conn_Read_full:
  "length frame = responseSize \<Longrightarrow> conn_Read (Inr frame) = Inr frame"
  by (simp add: conn_Read_def)

lemma readResponse_frame:
  assumes "length frame = responseSize"
  shows "readResponse order (Inr frame) ip =
     (if frame_magic order frame \<noteq> magicBytesRcv
      then (P0fResponse_zero, Some (Error ''invalid magic bytes in response''))
      else if frame_status order frame = resultOk then (frame_result order frame ip, None)
      else if frame_status order frame = resultBadQuery
      then (P0fResponse_zero, Some (Error ''bad query''))
      else if frame_status order frame = resultNoMatch
      then (P0fResponse_zero, Some (Error ''no match''))
      else (P0fResponse_zero,
            Some (Error (''unknown response code '' @ decimal (unat (frame_status order frame))))))"
proof -
  from assms have "dataSize \<le> length frame"
    by (simp add: responseSize_def dataSize_def p0fStrMax_def)
  then show ?thesis
    by (simp add: readResponse_def conn_Read_full [OF assms] binary_Read_fields
        frame_magic_def frame_status_def frame_result_def)
qed

lemma range_copy_in_range:
  "5 + i + length src \<le> length buffer \<Longrightarrow>
     range_copy buffer i src =
       Some (take (5 + i) buffer @ src @ drop (5 + i + length src) buffer)"
proof (induction src arbitrary: buffer i)
  case Nil
  then show ?case by simp
next
  case (Cons b src)
  then have lt: "5 + i < length buffer" by simp
  from Cons.prems have "5 + Suc i + length src \<le> length (buffer[5 + i := b])" by simp
  from Cons.IH [OF this] lt show ?case
    by (simp add: take_Suc_conv_app_nth upd_conv_take_nth_drop add_ac)
qed

lemma replicate_4: "replicate 4 x = [x, x, x, x]"
  by (simp add: numeral_eq_Suc)

lemma replicate_17: "replicate 17 x = x # replicate 16 x"
  by (simp add: numeral_eq_Suc)

lemma request_buffer_header:
  "PutUint32 order (go_slice 0 4 (replicate requestSize 0)) magicBytesSend
     @ drop 4 (replicate requestSize 0) =
   (case order of LittleEndian \<Rightarrow> [0x01, 0x46, 0x30, 0x50] | BigEndian \<Rightarrow> [0x50, 0x30, 0x46, 0x01])
     @ replicate 17 0"
  by (cases order; simp add: PutUint32_def go_slice_def requestSize_def magicBytesSend_def
      replicate_4)

lemma To4_length: "To4 ip = Some ip4 \<Longrightarrow> length ip4 = 4"
  by (auto simp: To4_def go_slice_def split: if_splits)

lemma To16_length: "To16 ip = Some ip16 \<Longrightarrow> length ip16 = 16"
  by (auto simp: To16_def v4InV6Prefix_def split: if_splits)

lemma request_buffer_eq:
  "request_buffer order ip =
     Some (magic_prefix order @
       (case To4 ip of
          Some ip4 \<Rightarrow> 4 # ip4 @ replicate 12 0
        | None \<Rightarrow> (case To16 ip of Some ip16 \<Rightarrow> 6 # ip16 | None \<Rightarrow> 6 # replicate 16 0)))"
proof -
  have len: "length (magic_prefix order) = 4" by (cases order) (simp_all add: magic_prefix_def)
  show ?thesis
  unfolding request_buffer_def Let_def request_buffer_header magic_prefix_def [symmetric]
  proof (cases "To4 ip")
    case (Some ip4)
    then have "length ip4 = 4" by (rule To4_length)
    with Some len show "(case To4 ip of
       Some ip4 \<Rightarrow> range_copy ((magic_prefix order @ replicate 17 0)[4 := ipv4Dword]) 0 ip4
     | None \<Rightarrow> range_copy ((magic_prefix order @ replicate 17 0)[4 := ipv6Dword]) 0
         (case To16 ip of None \<Rightarrow> [] | Some ip16 \<Rightarrow> ip16)) =
      Some (magic_prefix order @
       (case To4 ip of
          Some ip4 \<Rightarrow> 4 # ip4 @ replicate 12 0
        | None \<Rightarrow> (case To16 ip of Some ip16 \<Rightarrow> 6 # ip16 | None \<Rightarrow> 6 # replicate 16 0)))"
      by (simp add: range_copy_in_range list_update_append ipv4Dword_def replicate_17)
  next
    case None
    show "(case To4 ip of
       Some ip4 \<Rightarrow> range_copy ((magic_prefix order @ replicate 17 0)[4 := ipv4Dword]) 0 ip4
     | None \<Rightarrow> range_copy ((magic_prefix order @ replicate 17 0)[4 := ipv6Dword]) 0
         (case To16 ip of None \<Rightarrow> [] | Some ip16 \<Rightarrow> ip16)) =
      Some (magic_prefix order @
       (case To4 ip of
          Some ip4 \<Rightarrow> 4 # ip4 @ replicate 12 0
        | None \<Rightarrow> (case To16 ip of Some ip16 \<Rightarrow> 6 # ip16 | None \<Rightarrow> 6 # replicate 16 0)))"
    proof (cases "To16 ip")
      case n: None
      with None len show ?thesis
        by (simp add: list_update_append ipv6Dword_def replicate_17)
    next
      case (Some ip16)
      then have "length ip16 = 16" by (rule To16_length)
      with None Some len show ?thesis
        by (simp add: range_copy_in_range list_update_append ipv6Dword_def replicate_17)
    qed
  qed
qed

lemma uint32_reassemble:
  "(ucast (ucast v :: byte) :: uint32) OR push_bit 8 (ucast (ucast (drop_bit 8 v) :: byte))
     OR push_bit 16 (ucast (ucast (drop_bit 16 v) :: byte))
     OR push_bit 24 (ucast (ucast (drop_bit 24 v) :: byte)) = v"
proof (rule bit_word_eqI)
  fix n :: nat
  assume "n < LENGTH(32)"
  then have n: "n < 32" by simp
  consider "n < 8" | "8 \<le> n" "n < 16" | "16 \<le> n" "n < 24" | "24 \<le> n" "n < 32"
    using n by linarith
  then show "bit ((ucast (ucast v :: byte) :: uint32)
     OR push_bit 8 (ucast (ucast (drop_bit 8 v) :: byte))
     OR push_bit 16 (ucast (ucast (drop_bit 16 v) :: byte))
     OR push_bit 24 (ucast (ucast (drop_bit 24 v) :: byte))) n = bit v n"
    by cases (auto simp: bit_simps)
qed

lemma uint16_reassemble:
  "(ucast (ucast v :: byte) :: uint16) OR push_bit 8 (ucast (ucast (drop_bit 8 v) :: byte)) = v"
proof (rule bit_word_eqI)
  fix n :: nat
  assume "n < LENGTH(16)"
  then have n: "n < 16" by simp
  consider "n < 8" | "8 \<le> n" "n < 16" using n by linarith
  then show "bit ((ucast (ucast v :: byte) :: uint16)
     OR push_bit 8 (ucast (ucast (drop_bit 8 v) :: byte))) n = bit v n"
    by cases (auto simp: bit_simps)
qed

lemma length_uint32_bytes: "length (uint32_bytes order v) = 4"
  by (cases order) (simp_all add: uint32_bytes_def PutUint32_def)

lemma length_uint16_bytes: "length (uint16_bytes order v) = 2"
  by (cases order) (simp_all add: uint16_bytes_def)

lemma Uint32_uint32_bytes: "Uint32 order (uint32_bytes order v) = v"
  using uint32_reassemble [of v]
  by (cases order) (simp_all add: uint32_bytes_def PutUint32_def Uint32_def or.commute or.left_commute)

lemma Uint16_uint16_bytes: "Uint16 order (uint16_bytes order v) = v"
  using uint16_reassemble [of v]
  by (cases order) (simp_all add: uint16_bytes_def Uint16_def or.commute)

lemma d_uint32_bytes: "d_uint32 order (uint32_bytes order v @ rest) = (v, rest)"
  by (simp add: d_uint32_def go_slice_def length_uint32_bytes Uint32_uint32_bytes)

lemma d_uint16_bytes: "d_uint16 order (uint16_bytes order v @ rest) = (v, rest)"
  by (simp add: d_uint16_def go_slice_def length_uint16_bytes Uint16_uint16_bytes)

lemma d_uint8_Cons: "d_uint8 (b # rest) = (b, rest)"
  by (simp add: d_uint8_def)

lemma d_array_append: "length xs = n \<Longrightarrow> d_array n (xs @ rest) = (xs, rest)"
  by (simp add: d_array_def go_slice_def)

lemma d_array_all: "length xs = n \<Longrightarrow> d_array n xs = (xs, [])"
  by (simp add: d_array_def go_slice_def)

lemma length_crafted_frame:
  "well_sized r pad \<Longrightarrow> length (crafted_frame order r pad) = responseSize"
  by (simp add: well_sized_def crafted_frame_def length_uint32_bytes length_uint16_bytes
      p0fStrMax_def responseSize_def)

lemma binary_Read_crafted_frame:
  assumes "well_sized r pad"
  shows "binary_Read order (crafted_frame order r pad) = Inr r"
proof -
  define body where "body = uint32_bytes order (r_Magic r) @ uint32_bytes order (r_Status r) @
     uint32_bytes order (r_FirstSeen r) @ uint32_bytes order (r_LastSeen r) @
     uint32_bytes order (r_TotalCount r) @ uint32_bytes order (r_UptimeMin r) @
     uint32_bytes order (r_UpModDays r) @ uint32_bytes order (r_LastNat r) @
     uint32_bytes order (r_LastChg r) @ uint16_bytes order (r_Distance r) @
     r_BadSw r # r_OsMatchQ r #
     r_OsName r @ r_OsFlavor r @ r_HttpName r @ r_HttpFlavor r @
     uint16_bytes order (r_LinkMtu r) @ r_LinkType r @ r_Language r"
  have frame: "crafted_frame order r pad = body @ pad"
    by (simp add: crafted_frame_def body_def)
  from assms have sz: "length (r_OsName r) = 32" "length (r_OsFlavor r) = 32"
    "length (r_HttpName r) = 32" "length (r_HttpFlavor r) = 32"
    "length (r_LinkType r) = 32" "length (r_Language r) = 32"
    by (simp_all add: well_sized_def p0fStrMax_def)
  have len: "length body = dataSize"
    by (simp add: body_def sz length_uint32_bytes length_uint16_bytes dataSize_def p0fStrMax_def)
  then have tk: "take dataSize (body @ pad) = body" by simp
  from len have nonempty: "length (body @ pad) \<noteq> 0" "\<not> length (body @ pad) < dataSize"
    by (simp_all add: dataSize_def p0fStrMax_def)
  have "binary_Read order (body @ pad) = Inr r"
    unfolding binary_Read_def Let_def tk if_not_P [OF nonempty(2)] if_not_P [OF nonempty(1)]
    by (simp add: body_def d_uint32_bytes d_uint16_bytes d_uint8_Cons d_array_append d_array_all
        sz p0fStrMax_def)
  with frame show ?thesis by simp
qed

lemma readResponse_crafted_frame:
  assumes "well_sized r pad" and "r_Magic r = magicBytesRcv" and "r_Status r = resultOk"
  shows "readResponse order (Inr (crafted_frame order r pad)) ip =
     (\<lparr>Ip = ip, FirstSeen = r_FirstSeen r, LastSeen = r_LastSeen r,
       TotalCount = r_TotalCount r, UptimeMin = r_UptimeMin r, UpModDays = r_UpModDays r,
       LastNat = r_LastNat r, LastChg = r_LastChg r, Distance = r_Distance r,
       BadSw = r_BadSw r, OsMatchQ = r_OsMatchQ r, OsName = trstr (r_OsName r),
       OsFlavor = trstr (r_OsFlavor r), HttpName = trstr (r_HttpName r),
       HttpFlavor = trstr (r_HttpFlavor r), LinkMtu = r_LinkMtu r,
       LinkType = trstr (r_LinkType r), Language = trstr (r_Language r)\<rparr>, None)"
  using assms(2,3)
  by (simp add: readResponse_def conn_Read_full [OF length_crafted_frame [OF assms(1)]]
      binary_Read_crafted_frame [OF assms(1)])


section \<open>Lemmas on the engine\<close>

lemma filter_update_count:
  "i < length xs \<Longrightarrow>
     length (filter P (xs[i := y])) + (if P (xs ! i) then 1 else 0) =
     length (filter P xs) + (if P y then 1 else 0)"
proof (induction xs arbitrary: i)
  case Nil
  then show ?case by simp
next
  case (Cons x xs)
  show ?case
  proof (cases i)
    case 0
    then show ?thesis by simp
  next
    case (Suc j)
    with Cons.prems have "j < length xs" by simp
    from Cons.IH [OF this] Suc show ?thesis by simp
  qed
qed

lemma engine_inv_New: "engine_inv New"
  by (simp add: engine_inv_def New_def standing_def)

lemma worker_step_inv:
  "engine_inv p \<Longrightarrow> worker_step w p = Some p' \<Longrightarrow> engine_inv p'"
  by (auto simp: engine_inv_def worker_step_def standing_def Let_def
      split: worker_pc.splits if_splits list.splits prod.splits)


lemma caller_step_inv:
  assumes inv: "engine_inv p" and i: "i < length (callers p)"
    and step: "caller_step (callers p ! i) p = Some (c', p')"
  shows "engine_inv (p'\<lparr>callers := (callers p')[i := c']\<rparr>)"
proof -
  note upd = filter_update_count [OF i, of "\<lambda>x. x = ShutdownClose" c']
    filter_update_count [OF i, of "\<lambda>x. x = ShutdownReturned True" c']
  show ?thesis
  proof (cases "callers p ! i")
    case (QueryCalled ip)
    with inv step upd show ?thesis
      by (auto simp: engine_inv_def standing_def caller_step_def split: if_splits)
  next
    case (QuerySelect ip)
    with inv step upd show ?thesis
      by (auto simp: engine_inv_def standing_def caller_step_def Query_select_def split: if_splits)
  next
    case (QueryWaiting r)
    with inv step upd show ?thesis
      by (auto simp: engine_inv_def standing_def caller_step_def split: if_splits)
  next
    case (QueryReturned resp err)
    with step show ?thesis by (simp add: caller_step_def)
  next
    case QueryPanicked
    with step show ?thesis by (simp add: caller_step_def)
  next
    case ShutdownCalled
    with inv step upd show ?thesis
      by (auto simp: engine_inv_def standing_def caller_step_def CompareAndSwap_def split: if_splits)
  next
    case ShutdownClose
    with inv step upd show ?thesis
      by (auto simp: engine_inv_def standing_def caller_step_def close_requestQueue_def split: if_splits)
  next
    case (ShutdownReturned recovered)
    with step show ?thesis by (simp add: caller_step_def)
  qed
qed

lemma fire_inv: "engine_inv p \<Longrightarrow> fire w ev p = Some p' \<Longrightarrow> engine_inv p'"
proof (cases ev)
  case WorkerStep
  assume "engine_inv p" "fire w ev p = Some p'"
  with WorkerStep show ?thesis
    by (auto simp: fire_def dest: worker_step_inv split: if_splits)
next
  case (CallerStep i)
  assume "engine_inv p" "fire w ev p = Some p'"
  with CallerStep show ?thesis
    by (auto simp: fire_def dest: caller_step_inv split: if_splits option.splits)
next
  case (CallQuery ip)
  assume "engine_inv p" "fire w ev p = Some p'"
  with CallQuery show ?thesis
    by (auto simp: fire_def engine_inv_def standing_def split: if_splits)
next
  case CallShutdown
  assume "engine_inv p" "fire w ev p = Some p'"
  with CallShutdown show ?thesis
    by (auto simp: fire_def engine_inv_def standing_def split: if_splits)
qed

lemma reachable_inv: "reachable w p \<Longrightarrow> engine_inv p"
  by (induction rule: reachable.induct) (auto intro: engine_inv_New fire_inv)

lemma reachable_filled: "n \<le> requestChanSize \<Longrightarrow> reachable w (filled ip n)"
proof (induction n)
  case 0
  have "filled ip 0 = New" by (simp add: filled_def New_def)
  then show ?case by (simp add: reachable_New)
next
  case (Suc n)
  then have r0: "reachable w (filled ip n)" and lt: "n < requestChanSize" by simp_all
  define p1 where "p1 = (filled ip n)\<lparr>callers := map QueryWaiting [0..<n] @ [QueryCalled ip]\<rparr>"
  define p2 where "p2 = (filled ip n)\<lparr>callers := map QueryWaiting [0..<n] @ [QuerySelect ip]\<rparr>"
  have "fire w (CallQuery ip) (filled ip n) = Some p1"
    by (simp add: fire_def filled_def p1_def)
  with r0 have r1: "reachable w p1" by (rule reachable_fire)
  have "fire w (CallerStep n) p1 = Some p2"
    by (simp add: fire_def filled_def p1_def p2_def caller_step_def nth_append list_update_append)
  with r1 have r2: "reachable w p2" by (rule reachable_fire)
  have "fire w (CallerStep n) p2 = Some (filled ip (Suc n))"
    using lt
    by (simp add: fire_def filled_def p2_def caller_step_def Query_select_def nth_append
        list_update_append replicate_append_same)
  with r2 show ?case by (rule reachable_fire)
qed

lemma reachable_filled_shutdown:
  assumes "n \<le> requestChanSize"
  shows "reachable w (filled_shutdown ip n)"
proof -
  define p1 where "p1 = (filled ip n)\<lparr>callers := map QueryWaiting [0..<n] @ [ShutdownCalled]\<rparr>"
  have "fire w CallShutdown (filled ip n) = Some p1"
    by (simp add: fire_def filled_def p1_def)
  with reachable_filled [OF assms] have r1: "reachable w p1" by (rule reachable_fire)
  have "fire w (CallerStep n) p1 = Some (filled_shutdown ip n)"
    by (simp add: fire_def filled_def filled_shutdown_def p1_def caller_step_def
        CompareAndSwap_def nth_append list_update_append)
  with r1 show ?thesis by (rule reachable_fire)
qed

lemma reachable_filled_select:
  assumes "n \<le> requestChanSize"
  shows "reachable w (filled_select ip n ip')"
proof -
  define p1 where "p1 = (filled ip n)\<lparr>callers := map QueryWaiting [0..<n] @ [QueryCalled ip']\<rparr>"
  have "fire w (CallQuery ip') (filled ip n) = Some p1"
    by (simp add: fire_def filled_def p1_def)
  with reachable_filled [OF assms] have r1: "reachable w p1" by (rule reachable_fire)
  have "fire w (CallerStep n) p1 = Some (filled_select ip n ip')"
    by (simp add: fire_def filled_def filled_select_def p1_def caller_step_def nth_append
        list_update_append)
  with r1 show ?thesis by (rule reachable_fire)
qed

lemma reachable_late_caller: "reachable w late_caller"
proof -
  have "reachable w (filled_shutdown [1, 2, 3, 4] 0)"
    by (rule reachable_filled_shutdown) simp
  moreover have "fire w (CallQuery [5, 6, 7, 8]) (filled_shutdown [1, 2, 3, 4] 0) = Some late_caller"
    by (simp add: fire_def late_caller_def filled_shutdown_def filled_def)
  ultimately show ?thesis by (rule reachable_fire)
qed

lemma fire_monotone:
  "fire w ev p = Some p' \<Longrightarrow>
     (shutdown p \<longrightarrow> shutdown p') \<and> (queue_closed p \<longrightarrow> queue_closed p')"
  by (cases ev)
    (auto simp: fire_def worker_step_def caller_step_def Query_select_def CompareAndSwap_def
      close_requestQueue_def Let_def
      split: if_splits option.splits worker_pc.splits caller.splits list.splits prod.splits)

lemma reachable_not_closed: "reachable w p \<Longrightarrow> \<not> shutdown p \<Longrightarrow> \<not> queue_closed p"
  by (drule reachable_inv) (auto simp: engine_inv_def split: if_splits)

text \<open>Once the worker has returned, no step changes a request that exists.\<close>

lemma fire_after_exit:
  "worker p = WorkerExited \<Longrightarrow> fire w ev p = Some p' \<Longrightarrow> r < length (heap p) \<Longrightarrow>
     worker p' = WorkerExited \<and> r < length (heap p') \<and> heap p' ! r = heap p ! r"
  by (cases ev)
    (auto simp: fire_def worker_step_def caller_step_def Query_select_def CompareAndSwap_def
      close_requestQueue_def Let_def nth_append
      split: if_splits option.splits caller.splits prod.splits)

lemma run_after_exit:
  "worker p = WorkerExited \<Longrightarrow> run w evs p = Some p' \<Longrightarrow> r < length (heap p) \<Longrightarrow>
     worker p' = WorkerExited \<and> r < length (heap p') \<and> heap p' ! r = heap p ! r"
proof (induction evs arbitrary: p)
  case Nil
  then show ?case by simp
next
  case (Cons ev evs)
  from Cons.prems(2) obtain q where q: "fire w ev p = Some q" "run w evs q = Some p'"
    by (auto split: option.splits)
  from fire_after_exit [OF Cons.prems(1) q(1) Cons.prems(3)]
  have "worker q = WorkerExited" "r < length (heap q)" "heap q ! r = heap p ! r" by simp_all
  with Cons.IH [OF _ q(2)] show ?case by simp
qed

section \<open>The claims\<close>

text \<open>C1. The claim: every query put into the channel before \<open>Shutdown\<close> closes it is
  completed by the worker before the worker returns. The code does not do this. In
  \<open>shutdown_trace\<close> a query is accepted, \<open>Shutdown\<close> then sets the flag and closes the
  channel, and the worker, at its loop condition \<open>!p.shutdown.Load()\<close>, returns without a
  receive: the connection is closed, the request is still in the channel, \<open>wg.Done()\<close> has
  not run and the caller is blocked in \<open>wg.Wait()\<close>. In \<open>busy_shutdown_trace\<close> the same
  happens to a second query while the worker serves a first one to its end.\<close>

theorem start_abandons_queued_request:
  "run linux_world shutdown_trace New =
     Some \<lparr>conn_closed = True, requestQueue = [0], queue_closed = True, shutdown = True,
           heap = [new_request [1, 2, 3, 4]], exchanges = 0, worker = WorkerExited,
           callers = [QueryWaiting 0, ShutdownReturned False]\<rparr> \<and>
   req_done (new_request [1, 2, 3, 4]) = False \<and>
   map_option (\<lambda>p. (worker p, conn_closed p, requestQueue p, map req_done (heap p), callers p ! 1))
     (run linux_world busy_shutdown_trace New) =
     Some (WorkerExited, True, [1], [True, False], QueryWaiting 1)"
proof (intro conjI)
  show "run linux_world shutdown_trace New =
     Some \<lparr>conn_closed = True, requestQueue = [0], queue_closed = True, shutdown = True,
           heap = [new_request [1, 2, 3, 4]], exchanges = 0, worker = WorkerExited,
           callers = [QueryWaiting 0, ShutdownReturned False]\<rparr>"
    by (simp add: shutdown_trace_def New_def fire_def caller_step_def worker_step_def
        Query_select_def requestChanSize_def CompareAndSwap_def close_requestQueue_def)
  show "req_done (new_request [1, 2, 3, 4]) = False" by (simp add: new_request_def)
  show "map_option (\<lambda>p. (worker p, conn_closed p, requestQueue p, map req_done (heap p), callers p ! 1))
     (run linux_world busy_shutdown_trace New) =
     Some (WorkerExited, True, [1], [True, False], QueryWaiting 1)"
    by code_simp
qed

text \<open>C2. For every \<open>net.IP\<close> value, building the request does not panic and gives a buffer of
  exactly 21 bytes. Bytes 0-3 are the magic constant \<open>0x50304601\<close> in the byte order of the
  host. For an IPv4 address (\<open>To4\<close> is not nil) byte 4 is 4, bytes 5-8 are the four address
  bytes and bytes 9-20 are zero; for an IPv6 address (16 bytes, \<open>To4\<close> is nil) byte 4 is 6
  and bytes 5-20 are the 16 address bytes.\<close>

theorem writeRequest_frame_layout:
  "\<exists>buffer. request_buffer order ip = Some buffer \<and> length buffer = 21 \<and>
     go_slice 0 4 buffer = magic_prefix order \<and>
     Uint32 order (go_slice 0 4 buffer) = 0x50304601 \<and>
     (\<forall>ip4. To4 ip = Some ip4 \<longrightarrow>
        buffer ! 4 = 4 \<and> go_slice 5 9 buffer = ip4 \<and> go_slice 9 21 buffer = replicate 12 0) \<and>
     (To4 ip = None \<and> length ip = 16 \<longrightarrow> buffer ! 4 = 6 \<and> go_slice 5 21 buffer = ip)"
proof -
  have len: "length (magic_prefix order) = 4" by (cases order) (simp_all add: magic_prefix_def)
  have magic: "Uint32 order (magic_prefix order) = 0x50304601"
    by (cases order) (simp_all add: magic_prefix_def Uint32_def)
  show ?thesis
  proof (cases "To4 ip")
    case (Some ip4)
    then have l4: "length ip4 = 4" by (rule To4_length)
    from Some have "request_buffer order ip = Some (magic_prefix order @ 4 # ip4 @ replicate 12 0)"
      by (simp add: request_buffer_eq)
    moreover have "length (magic_prefix order @ 4 # ip4 @ replicate 12 0) = 21"
      using len l4 by simp
    moreover have "go_slice 0 4 (magic_prefix order @ 4 # ip4 @ replicate 12 0) = magic_prefix order"
      using len by (simp add: go_slice_def)
    moreover have "(magic_prefix order @ 4 # ip4 @ replicate 12 0) ! 4 = 4"
      using len by (simp add: nth_append)
    moreover have "go_slice 5 9 (magic_prefix order @ 4 # ip4 @ replicate 12 0) = ip4"
      using len l4 by (simp add: go_slice_def)
    moreover have "go_slice 9 21 (magic_prefix order @ 4 # ip4 @ replicate 12 0) = replicate 12 0"
      using len l4 by (simp add: go_slice_def)
    ultimately show ?thesis using Some magic by simp
  next
    case None
    show ?thesis
    proof (cases "length ip = 16")
      case True
      with None have t16: "To16 ip = Some ip" by (simp add: To16_def)
      with None have "request_buffer order ip = Some (magic_prefix order @ 6 # ip)"
        by (simp add: request_buffer_eq)
      moreover have "length (magic_prefix order @ 6 # ip) = 21" using len True by simp
      moreover have "go_slice 0 4 (magic_prefix order @ 6 # ip) = magic_prefix order"
        using len by (simp add: go_slice_def)
      moreover have "(magic_prefix order @ 6 # ip) ! 4 = 6" using len by (simp add: nth_append)
      moreover have "go_slice 5 21 (magic_prefix order @ 6 # ip) = ip"
        using len True by (simp add: go_slice_def)
      ultimately show ?thesis using None magic by simp
    next
      case False
      with None have "To16 ip = None" by (auto simp: To16_def To4_def split: if_splits)
      with None have "request_buffer order ip = Some (magic_prefix order @ 6 # replicate 16 0)"
        by (simp add: request_buffer_eq)
      moreover have "length (magic_prefix order @ 6 # replicate 16 0) = 21" using len by simp
      moreover have "go_slice 0 4 (magic_prefix order @ 6 # replicate 16 0) = magic_prefix order"
        using len by (simp add: go_slice_def)
      ultimately show ?thesis using None False magic by simp
    qed
  qed
qed

theorem writeRequest_frame_layout_witness:
  "To4 [1, 2, 3, 4] = Some [1, 2, 3, 4] \<and>
   map_option (\<lambda>b. (length b, go_slice 0 4 b, b ! 4, go_slice 5 9 b, go_slice 9 21 b))
     (request_buffer LittleEndian [1, 2, 3, 4]) =
     Some (21, [0x01, 0x46, 0x30, 0x50], 4, [1, 2, 3, 4], replicate 12 0) \<and>
   To4 ip6_example = None \<and> length ip6_example = 16 \<and>
   map_option (\<lambda>b. (length b, go_slice 0 4 b, b ! 4, go_slice 5 21 b))
     (request_buffer BigEndian ip6_example) =
     Some (21, [0x50, 0x30, 0x46, 0x01], 6, ip6_example)"
proof -
  have h: "To4 [1, 2, 3, 4] = Some [1, 2, 3, 4]" by (simp add: To4_def)
  from writeRequest_frame_layout [of LittleEndian "[1, 2, 3, 4]"] h
  obtain buffer where "request_buffer LittleEndian [1, 2, 3, 4] = Some buffer"
    "length buffer = 21" "go_slice 0 4 buffer = magic_prefix LittleEndian"
    "buffer ! 4 = 4" "go_slice 5 9 buffer = [1, 2, 3, 4]" "go_slice 9 21 buffer = replicate 12 0"
    by auto
  then have v4: "map_option (\<lambda>b. (length b, go_slice 0 4 b, b ! 4, go_slice 5 9 b, go_slice 9 21 b))
     (request_buffer LittleEndian [1, 2, 3, 4]) =
     Some (21, [0x01, 0x46, 0x30, 0x50], 4, [1, 2, 3, 4], replicate 12 0)"
    by (simp add: magic_prefix_def)
  have h6: "To4 ip6_example = None" "length ip6_example = 16"
    by (simp_all add: To4_def ip6_example_def)
  from writeRequest_frame_layout [of BigEndian ip6_example] h6
  obtain buffer6 where "request_buffer BigEndian ip6_example = Some buffer6"
    "length buffer6 = 21" "go_slice 0 4 buffer6 = magic_prefix BigEndian"
    "buffer6 ! 4 = 6" "go_slice 5 21 buffer6 = ip6_example"
    by auto
  then have v6: "map_option (\<lambda>b. (length b, go_slice 0 4 b, b ! 4, go_slice 5 21 b))
     (request_buffer BigEndian ip6_example) =
     Some (21, [0x50, 0x30, 0x46, 0x01], 6, ip6_example)"
    by (simp add: magic_prefix_def)
  from h v4 h6 v6 show ?thesis by blast
qed

text \<open>C3. For a 32-byte buffer \<open>trstr\<close> returns nil when byte 0 is zero; the first \<open>i\<close> bytes
  as text when the first zero byte is at offset \<open>i\<close> with \<open>1 \<le> i < 32\<close>; and all 32 bytes as
  text when no byte is zero. \<open>readResponse\<close> decodes each of the six string fields of a
  matching frame by \<open>trstr\<close> on the 32 bytes of the field.\<close>

theorem trstr_decode_rule:
  "length cStr = p0fStrMax \<Longrightarrow>
     (cStr ! 0 = 0 \<longrightarrow> trstr cStr = None) \<and>
     (\<forall>i. 1 \<le> i \<and> i < 32 \<and> cStr ! i = 0 \<and> (\<forall>j<i. cStr ! j \<noteq> 0)
          \<longrightarrow> trstr cStr = Some (go_string (take i cStr))) \<and>
     ((\<forall>j<32. cStr ! j \<noteq> 0)
          \<longrightarrow> trstr cStr = Some (go_string cStr) \<and> length (go_string cStr) = 32) \<and>
     (length frame = responseSize \<and> frame_magic order frame = 0x50304602 \<and>
      frame_status order frame = 0x10 \<longrightarrow>
        OsName (fst (readResponse order (Inr frame) ip)) = trstr (go_slice 40 72 frame) \<and>
        OsFlavor (fst (readResponse order (Inr frame) ip)) = trstr (go_slice 72 104 frame) \<and>
        HttpName (fst (readResponse order (Inr frame) ip)) = trstr (go_slice 104 136 frame) \<and>
        HttpFlavor (fst (readResponse order (Inr frame) ip)) = trstr (go_slice 136 168 frame) \<and>
        LinkType (fst (readResponse order (Inr frame) ip)) = trstr (go_slice 170 202 frame) \<and>
        Language (fst (readResponse order (Inr frame) ip)) = trstr (go_slice 202 234 frame))"
proof (intro conjI allI impI)
  assume "length cStr = p0fStrMax" "cStr ! 0 = 0"
  then show "trstr cStr = None" by (simp add: trstr_def)
next
  fix i
  assume len: "length cStr = p0fStrMax"
    and i: "1 \<le> i \<and> i < 32 \<and> cStr ! i = 0 \<and> (\<forall>j<i. cStr ! j \<noteq> 0)"
  then have "trstr_loop cStr 1 = go_string (take i cStr)"
    by (intro trstr_loop_found) (auto simp: p0fStrMax_def)
  moreover from i have "cStr ! 0 \<noteq> 0" by auto
  ultimately show "trstr cStr = Some (go_string (take i cStr))" by (simp add: trstr_def)
next
  assume len: "length cStr = p0fStrMax" and nz: "\<forall>j<32. cStr ! j \<noteq> 0"
  then have "trstr_loop cStr 1 = go_string cStr"
    by (intro trstr_loop_full) (auto simp: p0fStrMax_def)
  moreover from nz have "cStr ! 0 \<noteq> 0" by auto
  ultimately show "trstr cStr = Some (go_string cStr)" by (simp add: trstr_def)
next
  assume "length cStr = p0fStrMax"
  then show "length (go_string cStr) = 32" by (simp add: length_go_string p0fStrMax_def)
next
  assume f: "length frame = responseSize \<and> frame_magic order frame = 0x50304602 \<and>
      frame_status order frame = 0x10"
  then have eq: "readResponse order (Inr frame) ip = (frame_result order frame ip, None)"
    by (simp add: readResponse_frame magicBytesRcv_def resultOk_def)
  show "OsName (fst (readResponse order (Inr frame) ip)) = trstr (go_slice 40 72 frame)"
    "OsFlavor (fst (readResponse order (Inr frame) ip)) = trstr (go_slice 72 104 frame)"
    "HttpName (fst (readResponse order (Inr frame) ip)) = trstr (go_slice 104 136 frame)"
    "HttpFlavor (fst (readResponse order (Inr frame) ip)) = trstr (go_slice 136 168 frame)"
    "LinkType (fst (readResponse order (Inr frame) ip)) = trstr (go_slice 170 202 frame)"
    "Language (fst (readResponse order (Inr frame) ip)) = trstr (go_slice 202 234 frame)"
    by (simp_all add: eq frame_result_def)
qed

theorem trstr_decode_rule_witness:
  "length linux_name = p0fStrMax \<and> trstr linux_name = Some ''Linux'' \<and>
   length (replicate 32 (0::byte)) = p0fStrMax \<and> trstr (replicate 32 0) = None \<and>
   length full_name = p0fStrMax \<and> trstr full_name = Some ''AAAAAAAAAAAAAAAAAAAAAAAAAAAAAAAA'' \<and>
   length linux_frame = responseSize \<and> frame_magic LittleEndian linux_frame = 0x50304602 \<and>
   frame_status LittleEndian linux_frame = 0x10 \<and>
   OsName (fst (readResponse LittleEndian (Inr linux_frame) ''1.2.3.4'')) = Some ''Linux'' \<and>
   Language (fst (readResponse LittleEndian (Inr linux_frame) ''1.2.3.4'')) = None"
proof -
  have l1: "length linux_name = p0fStrMax" by (simp add: linux_name_def p0fStrMax_def)
  have l2: "length (replicate 32 (0::byte)) = p0fStrMax" by (simp add: p0fStrMax_def)
  have l3: "length full_name = p0fStrMax" by (simp add: full_name_def p0fStrMax_def)
  have i5: "1 \<le> (5::nat) \<and> (5::nat) < 32 \<and> linux_name ! 5 = 0 \<and> (\<forall>j<5. linux_name ! j \<noteq> 0)"
  proof (intro conjI allI impI)
    show "linux_name ! 5 = 0" by code_simp
    fix j :: nat assume "j < 5"
    then have "j = 0 \<or> j = 1 \<or> j = 2 \<or> j = 3 \<or> j = 4" by arith
    then show "linux_name ! j \<noteq> 0" by (auto simp: linux_name_def)
  qed simp_all
  have z: "replicate 32 (0::byte) ! 0 = 0" by simp
  have nz: "\<forall>j<32. full_name ! j \<noteq> 0" by (simp add: full_name_def)
  have f: "length linux_frame = responseSize \<and> frame_magic LittleEndian linux_frame = 0x50304602 \<and>
      frame_status LittleEndian linux_frame = 0x10"
    by code_simp
  have t1: "trstr linux_name = Some (go_string (take 5 linux_name))"
    using trstr_decode_rule [OF l1] i5 by blast
  have t2: "trstr (replicate 32 0) = None"
    using trstr_decode_rule [OF l2] z by blast
  have t3: "trstr full_name = Some (go_string full_name)"
    using trstr_decode_rule [OF l3] nz by blast
  have t4: "OsName (fst (readResponse LittleEndian (Inr linux_frame) ''1.2.3.4'')) =
      trstr (go_slice 40 72 linux_frame)"
    "Language (fst (readResponse LittleEndian (Inr linux_frame) ''1.2.3.4'')) =
      trstr (go_slice 202 234 linux_frame)"
    using trstr_decode_rule [OF l1, of linux_frame LittleEndian "''1.2.3.4''"] f by blast+
  have e1: "go_string (take 5 linux_name) = ''Linux''" by code_simp
  have e3: "go_string full_name = ''AAAAAAAAAAAAAAAAAAAAAAAAAAAAAAAA''" by code_simp
  have e4: "go_slice 40 72 linux_frame = linux_name" by code_simp
  have e5: "go_slice 202 234 linux_frame = replicate 32 0" by code_simp
  from l1 l2 l3 f t1 t2 t3 t4 e1 e3 e4 e5 show ?thesis by simp
qed

text \<open>C4. For a 236-byte frame with the magic \<open>0x50304602\<close>: status \<open>0x10\<close> gives the decoded
  result and no error; status \<open>0x00\<close> gives the error \<open>bad query\<close> and the zero result; status
  \<open>0x20\<close> gives the error \<open>no match\<close> and the zero result; any other status gives the error
  \<open>unknown response code\<close> with the status in decimal, and the zero result.\<close>

theorem readResponse_status_dispatch:
  "length frame = responseSize \<Longrightarrow> frame_magic order frame = 0x50304602 \<Longrightarrow>
     (frame_status order frame = 0x10 \<longrightarrow>
        readResponse order (Inr frame) ip = (frame_result order frame ip, None)) \<and>
     (frame_status order frame = 0x00 \<longrightarrow>
        readResponse order (Inr frame) ip = (P0fResponse_zero, Some (Error ''bad query''))) \<and>
     (frame_status order frame = 0x20 \<longrightarrow>
        readResponse order (Inr frame) ip = (P0fResponse_zero, Some (Error ''no match''))) \<and>
     (frame_status order frame \<notin> {0x10, 0x00, 0x20} \<longrightarrow>
        readResponse order (Inr frame) ip =
          (P0fResponse_zero,
           Some (Error (''unknown response code '' @ decimal (unat (frame_status order frame))))))"
  by (simp add: readResponse_frame magicBytesRcv_def resultOk_def resultBadQuery_def
      resultNoMatch_def)

theorem readResponse_status_dispatch_witness:
  "length (bare_frame [0x02, 0x46, 0x30, 0x50] 0x00) = responseSize \<and>
   frame_magic LittleEndian (bare_frame [0x02, 0x46, 0x30, 0x50] 0x00) = 0x50304602 \<and>
   frame_status LittleEndian (bare_frame [0x02, 0x46, 0x30, 0x50] 0x00) = 0x00 \<and>
   readResponse LittleEndian (Inr (bare_frame [0x02, 0x46, 0x30, 0x50] 0x00)) ''1.2.3.4'' =
     (P0fResponse_zero, Some (Error ''bad query'')) \<and>
   length (bare_frame [0x02, 0x46, 0x30, 0x50] 0x20) = responseSize \<and>
   frame_magic LittleEndian (bare_frame [0x02, 0x46, 0x30, 0x50] 0x20) = 0x50304602 \<and>
   frame_status LittleEndian (bare_frame [0x02, 0x46, 0x30, 0x50] 0x20) = 0x20 \<and>
   readResponse LittleEndian (Inr (bare_frame [0x02, 0x46, 0x30, 0x50] 0x20)) ''1.2.3.4'' =
     (P0fResponse_zero, Some (Error ''no match'')) \<and>
   length (bare_frame [0x02, 0x46, 0x30, 0x50] 0x11) = responseSize \<and>
   frame_magic LittleEndian (bare_frame [0x02, 0x46, 0x30, 0x50] 0x11) = 0x50304602 \<and>
   frame_status LittleEndian (bare_frame [0x02, 0x46, 0x30, 0x50] 0x11) = 0x11 \<and>
   readResponse LittleEndian (Inr (bare_frame [0x02, 0x46, 0x30, 0x50] 0x11)) ''1.2.3.4'' =
     (P0fResponse_zero, Some (Error ''unknown response code 17'')) \<and>
   length linux_frame = responseSize \<and>
   frame_magic LittleEndian linux_frame = 0x50304602 \<and>
   frame_status LittleEndian linux_frame = 0x10 \<and>
   readResponse LittleEndian (Inr linux_frame) ''1.2.3.4'' =
     (frame_result LittleEndian linux_frame ''1.2.3.4'', None)"
proof -
  have a: "length (bare_frame [0x02, 0x46, 0x30, 0x50] 0x00) = responseSize"
    "frame_magic LittleEndian (bare_frame [0x02, 0x46, 0x30, 0x50] 0x00) = 0x50304602"
    "frame_status LittleEndian (bare_frame [0x02, 0x46, 0x30, 0x50] 0x00) = 0x00"
    by code_simp+
  have b: "length (bare_frame [0x02, 0x46, 0x30, 0x50] 0x20) = responseSize"
    "frame_magic LittleEndian (bare_frame [0x02, 0x46, 0x30, 0x50] 0x20) = 0x50304602"
    "frame_status LittleEndian (bare_frame [0x02, 0x46, 0x30, 0x50] 0x20) = 0x20"
    by code_simp+
  have c: "length (bare_frame [0x02, 0x46, 0x30, 0x50] 0x11) = responseSize"
    "frame_magic LittleEndian (bare_frame [0x02, 0x46, 0x30, 0x50] 0x11) = 0x50304602"
    "frame_status LittleEndian (bare_frame [0x02, 0x46, 0x30, 0x50] 0x11) = 0x11"
    by code_simp+
  have d: "length linux_frame = responseSize"
    "frame_magic LittleEndian linux_frame = 0x50304602"
    "frame_status LittleEndian linux_frame = 0x10"
    by code_simp+
  have dec: "decimal (unat (0x11 :: uint32)) = ''17''" by code_simp
  have ra: "readResponse LittleEndian (Inr (bare_frame [0x02, 0x46, 0x30, 0x50] 0x00)) ''1.2.3.4'' =
     (P0fResponse_zero, Some (Error ''bad query''))"
    using readResponse_status_dispatch [OF a(1) a(2)] a(3) by simp
  have rb: "readResponse LittleEndian (Inr (bare_frame [0x02, 0x46, 0x30, 0x50] 0x20)) ''1.2.3.4'' =
     (P0fResponse_zero, Some (Error ''no match''))"
    using readResponse_status_dispatch [OF b(1) b(2)] b(3) by simp
  have rc: "readResponse LittleEndian (Inr (bare_frame [0x02, 0x46, 0x30, 0x50] 0x11)) ''1.2.3.4'' =
     (P0fResponse_zero, Some (Error ''unknown response code 17''))"
    using readResponse_status_dispatch [OF c(1) c(2)] c(3) dec by simp
  have rd: "readResponse LittleEndian (Inr linux_frame) ''1.2.3.4'' =
     (frame_result LittleEndian linux_frame ''1.2.3.4'', None)"
    using readResponse_status_dispatch [OF d(1) d(2)] d(3) by simp
  from a b c d ra rb rc rd show ?thesis by blast
qed

text \<open>C5. For a 236-byte frame with the magic \<open>0x50304602\<close> and status \<open>0x10\<close>, \<open>readResponse\<close>
  returns no error and a result whose numeric fields are the values the frame carries at
  their fixed offsets: the seven 32-bit values in bytes 8-35, the 16-bit distance in bytes
  36-37, the two flag bytes 38 and 39, and the 16-bit link MTU in bytes 168-169, after the
  four 32-byte strings. And for a frame crafted from arbitrary values, with that magic and
  status, the numeric fields of the result are exactly those values.\<close>

theorem readResponse_numeric_fields:
  "(length frame = responseSize \<and> frame_magic order frame = 0x50304602 \<and>
    frame_status order frame = 0x10 \<and> readResponse order (Inr frame) ip = (resp, err) \<longrightarrow>
      err = None \<and>
      FirstSeen resp = Uint32 order (go_slice 8 12 frame) \<and>
      LastSeen resp = Uint32 order (go_slice 12 16 frame) \<and>
      TotalCount resp = Uint32 order (go_slice 16 20 frame) \<and>
      UptimeMin resp = Uint32 order (go_slice 20 24 frame) \<and>
      UpModDays resp = Uint32 order (go_slice 24 28 frame) \<and>
      LastNat resp = Uint32 order (go_slice 28 32 frame) \<and>
      LastChg resp = Uint32 order (go_slice 32 36 frame) \<and>
      Distance resp = Uint16 order (go_slice 36 38 frame) \<and>
      BadSw resp = frame ! 38 \<and>
      OsMatchQ resp = frame ! 39 \<and>
      LinkMtu resp = Uint16 order (go_slice 168 170 frame)) \<and>
   (well_sized r pad \<and> r_Magic r = 0x50304602 \<and> r_Status r = 0x10 \<and>
    readResponse order (Inr (crafted_frame order r pad)) ip = (resp', err') \<longrightarrow>
      err' = None \<and>
      FirstSeen resp' = r_FirstSeen r \<and> LastSeen resp' = r_LastSeen r \<and>
      TotalCount resp' = r_TotalCount r \<and> UptimeMin resp' = r_UptimeMin r \<and>
      UpModDays resp' = r_UpModDays r \<and> LastNat resp' = r_LastNat r \<and>
      LastChg resp' = r_LastChg r \<and> Distance resp' = r_Distance r \<and>
      BadSw resp' = r_BadSw r \<and> OsMatchQ resp' = r_OsMatchQ r \<and>
      LinkMtu resp' = r_LinkMtu r)"
proof (rule conjI)
  show "length frame = responseSize \<and> frame_magic order frame = 0x50304602 \<and>
    frame_status order frame = 0x10 \<and> readResponse order (Inr frame) ip = (resp, err) \<longrightarrow>
      err = None \<and>
      FirstSeen resp = Uint32 order (go_slice 8 12 frame) \<and>
      LastSeen resp = Uint32 order (go_slice 12 16 frame) \<and>
      TotalCount resp = Uint32 order (go_slice 16 20 frame) \<and>
      UptimeMin resp = Uint32 order (go_slice 20 24 frame) \<and>
      UpModDays resp = Uint32 order (go_slice 24 28 frame) \<and>
      LastNat resp = Uint32 order (go_slice 28 32 frame) \<and>
      LastChg resp = Uint32 order (go_slice 32 36 frame) \<and>
      Distance resp = Uint16 order (go_slice 36 38 frame) \<and>
      BadSw resp = frame ! 38 \<and>
      OsMatchQ resp = frame ! 39 \<and>
      LinkMtu resp = Uint16 order (go_slice 168 170 frame)"
    by (auto simp: readResponse_frame magicBytesRcv_def resultOk_def frame_result_def)
next
  show "well_sized r pad \<and> r_Magic r = 0x50304602 \<and> r_Status r = 0x10 \<and>
    readResponse order (Inr (crafted_frame order r pad)) ip = (resp', err') \<longrightarrow>
      err' = None \<and>
      FirstSeen resp' = r_FirstSeen r \<and> LastSeen resp' = r_LastSeen r \<and>
      TotalCount resp' = r_TotalCount r \<and> UptimeMin resp' = r_UptimeMin r \<and>
      UpModDays resp' = r_UpModDays r \<and> LastNat resp' = r_LastNat r \<and>
      LastChg resp' = r_LastChg r \<and> Distance resp' = r_Distance r \<and>
      BadSw resp' = r_BadSw r \<and> OsMatchQ resp' = r_OsMatchQ r \<and>
      LinkMtu resp' = r_LinkMtu r"
  proof
    assume h: "well_sized r pad \<and> r_Magic r = 0x50304602 \<and> r_Status r = 0x10 \<and>
      readResponse order (Inr (crafted_frame order r pad)) ip = (resp', err')"
    then have "well_sized r pad" "r_Magic r = magicBytesRcv" "r_Status r = resultOk"
      by (simp_all add: magicBytesRcv_def resultOk_def)
    from readResponse_crafted_frame [OF this, of order ip] h
    show "err' = None \<and>
      FirstSeen resp' = r_FirstSeen r \<and> LastSeen resp' = r_LastSeen r \<and>
      TotalCount resp' = r_TotalCount r \<and> UptimeMin resp' = r_UptimeMin r \<and>
      UpModDays resp' = r_UpModDays r \<and> LastNat resp' = r_LastNat r \<and>
      LastChg resp' = r_LastChg r \<and> Distance resp' = r_Distance r \<and>
      BadSw resp' = r_BadSw r \<and> OsMatchQ resp' = r_OsMatchQ r \<and>
      LinkMtu resp' = r_LinkMtu r"
      by auto
  qed
qed

theorem readResponse_numeric_fields_witness:
  "length linux_frame = responseSize \<and> frame_magic LittleEndian linux_frame = 0x50304602 \<and>
   frame_status LittleEndian linux_frame = 0x10 \<and>
   snd (readResponse LittleEndian (Inr linux_frame) ''1.2.3.4'') = None \<and>
   FirstSeen (fst (readResponse LittleEndian (Inr linux_frame) ''1.2.3.4'')) = 1 \<and>
   LastChg (fst (readResponse LittleEndian (Inr linux_frame) ''1.2.3.4'')) = 7 \<and>
   Distance (fst (readResponse LittleEndian (Inr linux_frame) ''1.2.3.4'')) = 8 \<and>
   BadSw (fst (readResponse LittleEndian (Inr linux_frame) ''1.2.3.4'')) = 9 \<and>
   OsMatchQ (fst (readResponse LittleEndian (Inr linux_frame) ''1.2.3.4'')) = 10 \<and>
   LinkMtu (fst (readResponse LittleEndian (Inr linux_frame) ''1.2.3.4'')) = 1500 \<and>
   well_sized linux_wire [0, 0] \<and> r_Magic linux_wire = 0x50304602 \<and>
   r_Status linux_wire = 0x10 \<and> crafted_frame LittleEndian linux_wire [0, 0] = linux_frame \<and>
   LastSeen (fst (readResponse BigEndian (Inr (crafted_frame BigEndian linux_wire [0, 0]))
     ''1.2.3.4'')) = 2"
proof -
  have d: "length linux_frame = responseSize"
    "frame_magic LittleEndian linux_frame = 0x50304602"
    "frame_status LittleEndian linux_frame = 0x10"
    by code_simp+
  have v: "Uint32 LittleEndian (go_slice 8 12 linux_frame) = 1"
    "Uint32 LittleEndian (go_slice 32 36 linux_frame) = 7"
    "Uint16 LittleEndian (go_slice 36 38 linux_frame) = 8"
    "linux_frame ! 38 = 9" "linux_frame ! 39 = 10"
    "Uint16 LittleEndian (go_slice 168 170 linux_frame) = 1500"
    by code_simp+
  have p: "readResponse LittleEndian (Inr linux_frame) ''1.2.3.4'' =
     (fst (readResponse LittleEndian (Inr linux_frame) ''1.2.3.4''),
      snd (readResponse LittleEndian (Inr linux_frame) ''1.2.3.4''))"
    by simp
  have w: "well_sized linux_wire [0, 0]" "r_Magic linux_wire = 0x50304602"
    "r_Status linux_wire = 0x10" "r_LastSeen linux_wire = 2"
    by (simp_all add: well_sized_def linux_wire_def p0fStrMax_def)
  have c: "crafted_frame LittleEndian linux_wire [0, 0] = linux_frame" by code_simp
  have q: "readResponse BigEndian (Inr (crafted_frame BigEndian linux_wire [0, 0])) ''1.2.3.4'' =
     (fst (readResponse BigEndian (Inr (crafted_frame BigEndian linux_wire [0, 0])) ''1.2.3.4''),
      snd (readResponse BigEndian (Inr (crafted_frame BigEndian linux_wire [0, 0])) ''1.2.3.4''))"
    by simp
  from readResponse_numeric_fields [of linux_frame LittleEndian "''1.2.3.4''"
      "fst (readResponse LittleEndian (Inr linux_frame) ''1.2.3.4'')"
      "snd (readResponse LittleEndian (Inr linux_frame) ''1.2.3.4'')"
      linux_wire "[0, 0]"
      "fst (readResponse LittleEndian (Inr (crafted_frame LittleEndian linux_wire [0, 0])) ''1.2.3.4'')"
      "snd (readResponse LittleEndian (Inr (crafted_frame LittleEndian linux_wire [0, 0])) ''1.2.3.4'')"]
    d p v
  have first: "snd (readResponse LittleEndian (Inr linux_frame) ''1.2.3.4'') = None \<and>
   FirstSeen (fst (readResponse LittleEndian (Inr linux_frame) ''1.2.3.4'')) = 1 \<and>
   LastChg (fst (readResponse LittleEndian (Inr linux_frame) ''1.2.3.4'')) = 7 \<and>
   Distance (fst (readResponse LittleEndian (Inr linux_frame) ''1.2.3.4'')) = 8 \<and>
   BadSw (fst (readResponse LittleEndian (Inr linux_frame) ''1.2.3.4'')) = 9 \<and>
   OsMatchQ (fst (readResponse LittleEndian (Inr linux_frame) ''1.2.3.4'')) = 10 \<and>
   LinkMtu (fst (readResponse LittleEndian (Inr linux_frame) ''1.2.3.4'')) = 1500"
    by simp
  from readResponse_numeric_fields [of linux_frame BigEndian "''1.2.3.4''"
      "fst (readResponse BigEndian (Inr linux_frame) ''1.2.3.4'')"
      "snd (readResponse BigEndian (Inr linux_frame) ''1.2.3.4'')"
      linux_wire "[0, 0]"
      "fst (readResponse BigEndian (Inr (crafted_frame BigEndian linux_wire [0, 0])) ''1.2.3.4'')"
      "snd (readResponse BigEndian (Inr (crafted_frame BigEndian linux_wire [0, 0])) ''1.2.3.4'')"]
    w q
  have second: "LastSeen (fst (readResponse BigEndian
      (Inr (crafted_frame BigEndian linux_wire [0, 0])) ''1.2.3.4'')) = 2"
    by simp
  from d first w c second show ?thesis by simp
qed

text \<open>C6. For a 236-byte frame whose first four bytes are not the magic \<open>0x50304602\<close> in the
  byte order of the host, \<open>readResponse\<close> returns the error \<open>invalid magic bytes in response\<close>
  and the zero result, whatever the rest of the frame holds.\<close>

theorem readResponse_bad_magic:
  "length frame = responseSize \<Longrightarrow> frame_magic order frame \<noteq> 0x50304602 \<Longrightarrow>
     readResponse order (Inr frame) ip =
       (P0fResponse_zero, Some (Error ''invalid magic bytes in response''))"
  by (simp add: readResponse_frame magicBytesRcv_def)

theorem readResponse_bad_magic_witness:
  "length linux_frame = responseSize \<and> frame_magic BigEndian linux_frame \<noteq> 0x50304602 \<and>
   readResponse BigEndian (Inr linux_frame) ''1.2.3.4'' =
     (P0fResponse_zero, Some (Error ''invalid magic bytes in response''))"
proof -
  have l: "length linux_frame = responseSize" by code_simp
  have "frame_magic BigEndian linux_frame = 0x02463050" by code_simp
  then have m: "frame_magic BigEndian linux_frame \<noteq> 0x50304602" by simp
  from readResponse_bad_magic [OF l m] l m show ?thesis by simp
qed

text \<open>C7, as stated: every submission made while the channel holds 1024 requests fails with
  the capacity error. This fails once \<open>Shutdown\<close> has set the flag: the engine
  \<open>filled_shutdown ip 1024\<close> is reachable, its channel holds 1024 requests, and \<open>Query\<close>
  returns the shutdown error there, which is not the capacity error.\<close>

theorem Query_full_after_shutdown_counterexample:
  "reachable linux_world (filled_shutdown [1, 2, 3, 4] 1024) \<and>
   length (requestQueue (filled_shutdown [1, 2, 3, 4] 1024)) = 1024 \<and>
   fst (Query [1, 2, 3, 4] (filled_shutdown [1, 2, 3, 4] 1024)) =
     QueryReturned P0fResponse_zero (Some (Error ''P0f::Shutdown previously called'')) \<and>
   fst (Query [1, 2, 3, 4] (filled_shutdown [1, 2, 3, 4] 1024)) \<noteq>
     QueryReturned P0fResponse_zero (Some (Error ''requestQueue at capacity''))"
proof (intro conjI)
  show "reachable linux_world (filled_shutdown [1, 2, 3, 4] 1024)"
    by (rule reachable_filled_shutdown) (simp add: requestChanSize_def)
  show "length (requestQueue (filled_shutdown [1, 2, 3, 4] 1024)) = 1024"
    by (simp add: filled_shutdown_def filled_def)
  show "fst (Query [1, 2, 3, 4] (filled_shutdown [1, 2, 3, 4] 1024)) =
     QueryReturned P0fResponse_zero (Some (Error ''P0f::Shutdown previously called''))"
    by (simp add: Query_def filled_shutdown_def filled_def errShutdown_def)
  then show "fst (Query [1, 2, 3, 4] (filled_shutdown [1, 2, 3, 4] 1024)) \<noteq>
     QueryReturned P0fResponse_zero (Some (Error ''requestQueue at capacity''))"
    by simp
qed

text \<open>C7, amended: in every reachable engine the channel holds at most 1024 requests, and a
  call of \<open>Query\<close> made while the shutdown flag is not set and the channel holds 1024
  requests returns at once with the capacity error, the engine (the channel included)
  unchanged. The same holds for the \<open>select\<close> step of a goroutine amid other goroutines.\<close>

theorem Query_at_capacity:
  "reachable w p \<Longrightarrow>
     length (requestQueue p) \<le> 1024 \<and>
     (\<not> shutdown p \<and> length (requestQueue p) = 1024 \<longrightarrow>
        Query ip p = (QueryReturned P0fResponse_zero (Some (Error ''requestQueue at capacity'')), p)) \<and>
     (\<not> shutdown p \<and> length (requestQueue p) = 1024 \<and> worker p \<noteq> WorkerPanicked \<and>
      i < length (callers p) \<and> callers p ! i = QuerySelect ip \<longrightarrow>
        fire w (CallerStep i) p =
          Some (p\<lparr>callers := (callers p)
                  [i := QueryReturned P0fResponse_zero (Some (Error ''requestQueue at capacity''))]\<rparr>))"
proof -
  assume r: "reachable w p"
  from reachable_inv [OF r] have "length (requestQueue p) \<le> 1024"
    by (simp add: engine_inv_def requestChanSize_def)
  moreover have "\<not> shutdown p \<and> length (requestQueue p) = 1024 \<longrightarrow>
        Query ip p = (QueryReturned P0fResponse_zero (Some (Error ''requestQueue at capacity'')), p)"
    using reachable_not_closed [OF r]
    by (simp add: Query_def Query_select_def requestChanSize_def errCapacity_def)
  moreover have "\<not> shutdown p \<and> length (requestQueue p) = 1024 \<and> worker p \<noteq> WorkerPanicked \<and>
      i < length (callers p) \<and> callers p ! i = QuerySelect ip \<longrightarrow>
        fire w (CallerStep i) p =
          Some (p\<lparr>callers := (callers p)
                  [i := QueryReturned P0fResponse_zero (Some (Error ''requestQueue at capacity''))]\<rparr>)"
    using reachable_not_closed [OF r]
    by (simp add: fire_def caller_step_def Query_select_def requestChanSize_def errCapacity_def)
  ultimately show ?thesis by simp
qed

theorem Query_at_capacity_witness:
  "reachable linux_world (filled [1, 2, 3, 4] 1024) \<and>
   \<not> shutdown (filled [1, 2, 3, 4] 1024) \<and>
   length (requestQueue (filled [1, 2, 3, 4] 1024)) = 1024 \<and>
   Query [5, 6, 7, 8] (filled [1, 2, 3, 4] 1024) =
     (QueryReturned P0fResponse_zero (Some (Error ''requestQueue at capacity'')),
      filled [1, 2, 3, 4] 1024) \<and>
   reachable linux_world (filled_select [1, 2, 3, 4] 1024 [5, 6, 7, 8]) \<and>
   \<not> shutdown (filled_select [1, 2, 3, 4] 1024 [5, 6, 7, 8]) \<and>
   length (requestQueue (filled_select [1, 2, 3, 4] 1024 [5, 6, 7, 8])) = 1024 \<and>
   worker (filled_select [1, 2, 3, 4] 1024 [5, 6, 7, 8]) \<noteq> WorkerPanicked \<and>
   1024 < length (callers (filled_select [1, 2, 3, 4] 1024 [5, 6, 7, 8])) \<and>
   callers (filled_select [1, 2, 3, 4] 1024 [5, 6, 7, 8]) ! 1024 = QuerySelect [5, 6, 7, 8] \<and>
   fire linux_world (CallerStep 1024) (filled_select [1, 2, 3, 4] 1024 [5, 6, 7, 8]) =
     Some ((filled_select [1, 2, 3, 4] 1024 [5, 6, 7, 8])
       \<lparr>callers := (callers (filled_select [1, 2, 3, 4] 1024 [5, 6, 7, 8]))
          [1024 := QueryReturned P0fResponse_zero (Some (Error ''requestQueue at capacity''))]\<rparr>)"
proof -
  have r: "reachable linux_world (filled [1, 2, 3, 4] 1024)"
    by (rule reachable_filled) (simp add: requestChanSize_def)
  have h: "\<not> shutdown (filled [1, 2, 3, 4] 1024)"
    "length (requestQueue (filled [1, 2, 3, 4] 1024)) = 1024"
    by (simp_all add: filled_def)
  from Query_at_capacity [OF r, of "[5, 6, 7, 8]" 0] h
  have q: "Query [5, 6, 7, 8] (filled [1, 2, 3, 4] 1024) =
     (QueryReturned P0fResponse_zero (Some (Error ''requestQueue at capacity'')),
      filled [1, 2, 3, 4] 1024)"
    by simp
  have r': "reachable linux_world (filled_select [1, 2, 3, 4] 1024 [5, 6, 7, 8])"
    by (rule reachable_filled_select) (simp add: requestChanSize_def)
  have h': "\<not> shutdown (filled_select [1, 2, 3, 4] 1024 [5, 6, 7, 8])"
    "length (requestQueue (filled_select [1, 2, 3, 4] 1024 [5, 6, 7, 8])) = 1024"
    "worker (filled_select [1, 2, 3, 4] 1024 [5, 6, 7, 8]) \<noteq> WorkerPanicked"
    "1024 < length (callers (filled_select [1, 2, 3, 4] 1024 [5, 6, 7, 8]))"
    "callers (filled_select [1, 2, 3, 4] 1024 [5, 6, 7, 8]) ! 1024 = QuerySelect [5, 6, 7, 8]"
    by (simp_all add: filled_select_def filled_def nth_append)
  from Query_at_capacity [OF r', of "[5, 6, 7, 8]" 1024] h'
  have f: "fire linux_world (CallerStep 1024) (filled_select [1, 2, 3, 4] 1024 [5, 6, 7, 8]) =
     Some ((filled_select [1, 2, 3, 4] 1024 [5, 6, 7, 8])
       \<lparr>callers := (callers (filled_select [1, 2, 3, 4] 1024 [5, 6, 7, 8]))
          [1024 := QueryReturned P0fResponse_zero (Some (Error ''requestQueue at capacity''))]\<rparr>)"
    by blast
  from r h q r' h' f show ?thesis by blast
qed

text \<open>C8. A call of \<open>Query\<close> made while the shutdown flag is set returns at once with the
  shutdown error and leaves the engine, the channel included, as it was; this holds in
  particular for a call made after a call of \<open>Shutdown\<close> has returned. The same holds for
  the step of a goroutine that loads the flag amid other goroutines.\<close>

theorem Query_after_shutdown:
  "(shutdown p \<longrightarrow>
      Query ip p =
        (QueryReturned P0fResponse_zero (Some (Error ''P0f::Shutdown previously called'')), p)) \<and>
   Query ip (snd (Shutdown p)) =
     (QueryReturned P0fResponse_zero (Some (Error ''P0f::Shutdown previously called'')),
      snd (Shutdown p)) \<and>
   (shutdown p \<and> worker p \<noteq> WorkerPanicked \<and> i < length (callers p) \<and>
    callers p ! i = QueryCalled ip \<longrightarrow>
      (\<exists>p'. fire w (CallerStep i) p = Some p' \<and> requestQueue p' = requestQueue p \<and>
            heap p' = heap p \<and>
            callers p' ! i =
              QueryReturned P0fResponse_zero (Some (Error ''P0f::Shutdown previously called''))))"
  by (auto simp: Query_def Shutdown_def CompareAndSwap_def close_requestQueue_def errShutdown_def
      fire_def caller_step_def)

theorem Query_after_shutdown_witness:
  "shutdown (filled_shutdown [1, 2, 3, 4] 3) \<and>
   Query [5, 6, 7, 8] (filled_shutdown [1, 2, 3, 4] 3) =
     (QueryReturned P0fResponse_zero (Some (Error ''P0f::Shutdown previously called'')),
      filled_shutdown [1, 2, 3, 4] 3) \<and>
   requestQueue (snd (Query [5, 6, 7, 8] (filled_shutdown [1, 2, 3, 4] 3))) = [0, 1, 2] \<and>
   shutdown late_caller \<and> worker late_caller \<noteq> WorkerPanicked \<and>
   1 < length (callers late_caller) \<and> callers late_caller ! 1 = QueryCalled [5, 6, 7, 8] \<and>
   map_option (\<lambda>p'. (requestQueue p', heap p', callers p' ! 1))
     (fire linux_world (CallerStep 1) late_caller) =
     Some ([], [],
       QueryReturned P0fResponse_zero (Some (Error ''P0f::Shutdown previously called'')))"
proof -
  have h: "shutdown (filled_shutdown [1, 2, 3, 4] 3)" by (simp add: filled_shutdown_def)
  have q: "requestQueue (filled_shutdown [1, 2, 3, 4] 3) = [0, 1, 2]"
    by (simp add: filled_shutdown_def filled_def upt_rec)
  from Query_after_shutdown [of "filled_shutdown [1, 2, 3, 4] 3" "[5, 6, 7, 8]"] h
  have a: "Query [5, 6, 7, 8] (filled_shutdown [1, 2, 3, 4] 3) =
     (QueryReturned P0fResponse_zero (Some (Error ''P0f::Shutdown previously called'')),
      filled_shutdown [1, 2, 3, 4] 3)"
    by blast
  with q have b: "requestQueue (snd (Query [5, 6, 7, 8] (filled_shutdown [1, 2, 3, 4] 3))) = [0, 1, 2]"
    by simp
  have l: "shutdown late_caller" "worker late_caller \<noteq> WorkerPanicked"
    "1 < length (callers late_caller)" "callers late_caller ! 1 = QueryCalled [5, 6, 7, 8]"
    "requestQueue late_caller = []" "heap late_caller = []"
    by (simp_all add: late_caller_def filled_shutdown_def filled_def)
  from Query_after_shutdown [of late_caller "[5, 6, 7, 8]" 1 linux_world] l
  obtain p' where "fire linux_world (CallerStep 1) late_caller = Some p'"
    "requestQueue p' = []" "heap p' = []"
    "callers p' ! 1 = QueryReturned P0fResponse_zero (Some (Error ''P0f::Shutdown previously called''))"
    by auto
  then have c: "map_option (\<lambda>p'. (requestQueue p', heap p', callers p' ! 1))
     (fire linux_world (CallerStep 1) late_caller) =
     Some ([], [],
       QueryReturned P0fResponse_zero (Some (Error ''P0f::Shutdown previously called'')))"
    by simp
  from h a b l(1-4) c show ?thesis by blast
qed

text \<open>C9. In every reachable engine: the first call of \<open>Shutdown\<close> (flag not set) sets the
  flag and closes the channel without a panic; a call with the flag set changes nothing and
  recovers no panic, so calling \<open>Shutdown\<close> twice is the same as calling it once. Under
  any interleaving exactly one goroutine wins the compare-and-swap once the flag is set,
  and it either still stands before its \<open>close\<close> or has closed the channel; no \<open>close\<close> ever
  panics; and no step unsets the flag or reopens the channel.\<close>

theorem Shutdown_idempotent:
  "reachable w p \<Longrightarrow>
     (\<not> shutdown p \<longrightarrow> Shutdown p = (False, p\<lparr>shutdown := True, queue_closed := True\<rparr>)) \<and>
     (shutdown p \<longrightarrow> Shutdown p = (False, p)) \<and>
     Shutdown (snd (Shutdown p)) = (False, snd (Shutdown p)) \<and>
     standing ShutdownClose p + (if queue_closed p then 1 else 0) = (if shutdown p then 1 else 0) \<and>
     standing (ShutdownReturned True) p = 0 \<and>
     (\<forall>ev p'. fire w ev p = Some p' \<longrightarrow>
        (shutdown p \<longrightarrow> shutdown p') \<and> (queue_closed p \<longrightarrow> queue_closed p'))"
proof -
  assume r: "reachable w p"
  note inv = reachable_inv [OF r]
  have a: "\<not> shutdown p \<longrightarrow> Shutdown p = (False, p\<lparr>shutdown := True, queue_closed := True\<rparr>)"
    using reachable_not_closed [OF r]
    by (simp add: Shutdown_def CompareAndSwap_def close_requestQueue_def)
  have b: "shutdown p \<longrightarrow> Shutdown p = (False, p)"
    by (simp add: Shutdown_def CompareAndSwap_def)
  have c: "Shutdown (snd (Shutdown p)) = (False, snd (Shutdown p))"
    by (simp add: Shutdown_def CompareAndSwap_def close_requestQueue_def)
  have d: "standing ShutdownClose p + (if queue_closed p then 1 else 0) = (if shutdown p then 1 else 0)"
    "standing (ShutdownReturned True) p = 0"
    using inv by (simp_all add: engine_inv_def)
  have e: "\<forall>ev p'. fire w ev p = Some p' \<longrightarrow>
        (shutdown p \<longrightarrow> shutdown p') \<and> (queue_closed p \<longrightarrow> queue_closed p')"
    using fire_monotone by blast
  from a b c d e show ?thesis by blast
qed

theorem Shutdown_idempotent_witness:
  "reachable linux_world New \<and> \<not> shutdown New \<and>
   Shutdown New = (False, New\<lparr>shutdown := True, queue_closed := True\<rparr>) \<and>
   Shutdown (snd (Shutdown New)) = (False, New\<lparr>shutdown := True, queue_closed := True\<rparr>) \<and>
   reachable linux_world late_caller \<and> shutdown late_caller \<and>
   Shutdown late_caller = (False, late_caller) \<and>
   standing ShutdownClose late_caller = 1 \<and>
   fire linux_world (CallerStep 0) late_caller =
     Some (late_caller\<lparr>queue_closed := True,
             callers := [ShutdownReturned False, QueryCalled [5, 6, 7, 8]]\<rparr>) \<and>
   shutdown (late_caller\<lparr>queue_closed := True,
               callers := [ShutdownReturned False, QueryCalled [5, 6, 7, 8]]\<rparr>)"
proof -
  have r: "reachable linux_world New" by (rule reachable_New)
  have h: "\<not> shutdown New" by (simp add: New_def)
  from Shutdown_idempotent [OF r] h
  have s1: "Shutdown New = (False, New\<lparr>shutdown := True, queue_closed := True\<rparr>)"
    by blast
  from Shutdown_idempotent [OF r]
  have s2: "Shutdown (snd (Shutdown New)) = (False, snd (Shutdown New))"
    by blast
  from s1 have "snd (Shutdown New) = New\<lparr>shutdown := True, queue_closed := True\<rparr>"
    by simp
  with s2
  have s3: "Shutdown (snd (Shutdown New)) = (False, New\<lparr>shutdown := True, queue_closed := True\<rparr>)"
    by simp
  have r': "reachable linux_world late_caller" by (rule reachable_late_caller)
  have h': "shutdown late_caller" "\<not> queue_closed late_caller"
    by (simp_all add: late_caller_def filled_shutdown_def filled_def)
  have f: "fire linux_world (CallerStep 0) late_caller =
     Some (late_caller\<lparr>queue_closed := True,
             callers := [ShutdownReturned False, QueryCalled [5, 6, 7, 8]]\<rparr>)"
    by (simp add: fire_def caller_step_def close_requestQueue_def late_caller_def
        filled_shutdown_def filled_def)
  from Shutdown_idempotent [OF r'] h'(1)
  have t1: "Shutdown late_caller = (False, late_caller)" by blast
  from Shutdown_idempotent [OF r'] h'
  have t2: "standing ShutdownClose late_caller = 1" by simp
  from Shutdown_idempotent [OF r'] f h'(1)
  have t3: "shutdown (late_caller\<lparr>queue_closed := True,
               callers := [ShutdownReturned False, QueryCalled [5, 6, 7, 8]]\<rparr>)"
    by blast
  from r h s1 s3 r' h'(1) t1 t2 f t3 show ?thesis by blast
qed

text \<open>C10. Whenever \<open>trstr\<close> returns a string for a 32-byte buffer, the string is not empty,
  is between 1 and 32 bytes long and holds no zero byte.\<close>

theorem trstr_present_nonempty:
  "length cStr = p0fStrMax \<Longrightarrow> trstr cStr = Some s \<Longrightarrow>
     s \<noteq> [] \<and> 1 \<le> length s \<and> length s \<le> 32 \<and> (\<forall>c \<in> set s. of_char c \<noteq> (0::nat))"
proof -
  assume len: "length cStr = p0fStrMax" and some: "trstr cStr = Some s"
  from some have nz0: "cStr ! 0 \<noteq> 0" and s: "s = trstr_loop cStr 1"
    by (auto simp: trstr_def split: if_splits)
  from len have "1 \<le> length cStr" by (simp add: p0fStrMax_def)
  from trstr_loop_prefix [OF this] obtain k where k: "1 \<le> k" "k \<le> length cStr"
    "trstr_loop cStr 1 = go_string (take k cStr)" "\<forall>j. 1 \<le> j \<and> j < k \<longrightarrow> cStr ! j \<noteq> 0"
    by auto
  have "\<forall>b \<in> set (take k cStr). b \<noteq> 0"
  proof
    fix b assume "b \<in> set (take k cStr)"
    then obtain j where j: "j < k" "b = cStr ! j"
      using k(2) by (auto simp: in_set_conv_nth)
    show "b \<noteq> 0" using j nz0 k(4) by (cases "j = 0") auto
  qed
  then have "\<forall>c \<in> set (go_string (take k cStr)). of_char c \<noteq> (0::nat)"
    by (rule go_string_no_zero)
  then have "\<forall>c \<in> set s. of_char c \<noteq> (0::nat)"
    using s k(3) by simp
  moreover have "length s = k" using s k by (simp add: length_go_string)
  ultimately show ?thesis using k len by (auto simp: p0fStrMax_def)
qed

theorem trstr_present_nonempty_witness:
  "length linux_name = p0fStrMax \<and> trstr linux_name = Some ''Linux'' \<and>
   ''Linux'' \<noteq> [] \<and> 1 \<le> length ''Linux'' \<and> length ''Linux'' \<le> 32 \<and>
   of_char CHR ''L'' \<noteq> (0::nat) \<and> of_char CHR ''x'' \<noteq> (0::nat)"
proof -
  have l: "length linux_name = p0fStrMax" by (simp add: linux_name_def p0fStrMax_def)
  have t: "trstr linux_name = Some ''Linux''" by code_simp
  from trstr_present_nonempty [OF l t] l t show ?thesis by simp
qed

end
